theory Spec2Isabelle
  imports Complex_Main "HOL-Library.Multiset" "HOL-Library.Log_Nat"
begin

section \<open>JavaScript values\<close>

text \<open>
  The program is JavaScript. A string is modelled as a \<open>string\<close>, one \<open>char\<close> for each
  code unit (code units below 256). A value that may be missing (a property that was never
  set, an index past the end of an array) is \<open>Undefined\<close>.
\<close>

datatype jsval = Str string | Undefined

text \<open>
  A Number is an IEEE double. The special values of the doubles are kept apart: \<open>NaN\<close>,
  the two infinities and the negative zero \<open>NZero\<close>. \<open>Fin x\<close> is the double of the value
  \<open>x\<close>, and \<open>Fin 0\<close> is the positive zero. The numbers the program stores and compares
  are integers (\<open>int number\<close>; every integer below \<open>2^53\<close> in magnitude is a double, of
  the larger ones those that \<open>round_int\<close> leaves as they are); the quotient that
  \<open>densityRelativeTo\<close> rounds is a fraction (\<open>rat number\<close>).
\<close>

datatype 'a number = Fin 'a | NZero | PInf | NInf | NaN

text \<open>
  An operation of the doubles returns the double nearest to its exact result, a tie
  going to the double with the even significand. For a positive \<open>q\<close> with
  \<open>2^e \<le> q < 2^(e+1)\<close> the doubles around \<open>q\<close> are the multiples of \<open>2^(e-52)\<close>; below
  \<open>2^(-1022)\<close> they are the multiples of \<open>2^(-1074)\<close>, so a small result may round to a
  zero; a result that rounds to \<open>2^1024\<close> or more is an infinity.
\<close>

definition round_even :: "rat \<Rightarrow> int" where
  "round_even x =
     (let f = \<lfloor>x\<rfloor>; r = x - of_int f
      in if r < 1 / 2 then f else if 1 / 2 < r then f + 1 else if even f then f else f + 1)"

text \<open>The exponent \<open>e\<close> of a positive \<open>q\<close>, with \<open>2^e \<le> q < 2^(e+1)\<close>.\<close>

definition ilog2 :: "rat \<Rightarrow> int" where
  "ilog2 q = (if 1 \<le> q then bitlen \<lfloor>q\<rfloor> - 1 else - bitlen (\<lceil>1 / q\<rceil> - 1))"

definition round_pos :: "rat \<Rightarrow> rat number" where
  "round_pos q =
     (let e = max (ilog2 q) (- 1022);
          u = power_int 2 (e - 52);
          v = of_int (round_even (q / u)) * u
      in if power_int 2 1024 \<le> v then PInf else Fin v)"

fun negate :: "rat number \<Rightarrow> rat number" where
  "negate (Fin v) = (if v = 0 then NZero else Fin (- v))"
| "negate NZero = Fin 0"
| "negate PInf = NInf"
| "negate NInf = PInf"
| "negate NaN = NaN"

definition to_double :: "rat \<Rightarrow> rat number" where
  "to_double q = (if 0 \<le> q then round_pos q else negate (round_pos (- q)))"

text \<open>The double nearest to an integer is an integer as well.\<close>

fun integral :: "rat number \<Rightarrow> int number" where
  "integral (Fin v) = Fin \<lfloor>v\<rfloor>"
| "integral NZero = NZero"
| "integral PInf = PInf"
| "integral NInf = NInf"
| "integral NaN = NaN"

definition round_int :: "int \<Rightarrow> int number" where
  "round_int n = integral (to_double (of_int n))"

definition is_zero :: "int number \<Rightarrow> bool" where
  "is_zero a = (a = Fin 0 \<or> a = NZero)"

definition is_inf :: "int number \<Rightarrow> bool" where
  "is_inf a = (a = PInf \<or> a = NInf)"

text \<open>The sign bit of a number that is not \<open>NaN\<close>.\<close>

fun sign_neg :: "int number \<Rightarrow> bool" where
  "sign_neg (Fin n) = (n < 0)"
| "sign_neg NZero = True"
| "sign_neg NInf = True"
| "sign_neg PInf = False"
| "sign_neg NaN = False"

text \<open>The value of a finite number.\<close>

fun mag :: "int number \<Rightarrow> int" where
  "mag (Fin n) = n"
| "mag _ = 0"

text \<open>The operator \<open>a * b\<close>.\<close>

definition js_mul :: "int number \<Rightarrow> int number \<Rightarrow> int number" where
  "js_mul a b =
     (if a = NaN \<or> b = NaN then NaN
      else if (is_inf a \<and> is_zero b) \<or> (is_zero a \<and> is_inf b) then NaN
      else if is_inf a \<or> is_inf b then (if sign_neg a \<noteq> sign_neg b then NInf else PInf)
      else if mag a * mag b = 0 then (if sign_neg a \<noteq> sign_neg b then NZero else Fin 0)
      else round_int (mag a * mag b))"

text \<open>
  The operator \<open>a / b\<close>. It never raises: a division by a zero gives an infinity, or
  \<open>NaN\<close> when the numerator is a zero too.
\<close>

definition js_div :: "int number \<Rightarrow> int number \<Rightarrow> rat number" where
  "js_div a b =
     (if a = NaN \<or> b = NaN then NaN
      else if (is_inf a \<and> is_inf b) \<or> (is_zero a \<and> is_zero b) then NaN
      else if is_inf a \<or> is_zero b then (if sign_neg a \<noteq> sign_neg b then NInf else PInf)
      else if is_inf b \<or> is_zero a then (if sign_neg a \<noteq> sign_neg b then NZero else Fin 0)
      else to_double (of_int (mag a) / of_int (mag b)))"

text \<open>
  \<open>Math.round\<close>: the nearest integer, a tie going up; a result of zero keeps the sign of
  the argument. The result is exact: it is a double whenever the argument is.
\<close>

fun Math_round :: "rat number \<Rightarrow> int number" where
  "Math_round (Fin q) =
     (let r = \<lfloor>q + 1 / 2\<rfloor> in if r = 0 then (if q < 0 then NZero else Fin 0) else Fin r)"
| "Math_round NZero = NZero"
| "Math_round PInf = PInf"
| "Math_round NInf = NInf"
| "Math_round NaN = NaN"

text \<open>The operator \<open>a - b\<close>.\<close>

fun js_sub :: "int number \<Rightarrow> int number \<Rightarrow> int number" where
  "js_sub NaN _ = NaN"
| "js_sub _ NaN = NaN"
| "js_sub PInf PInf = NaN"
| "js_sub NInf NInf = NaN"
| "js_sub PInf _ = PInf"
| "js_sub NInf _ = NInf"
| "js_sub _ PInf = NInf"
| "js_sub _ NInf = PInf"
| "js_sub a b =
     (if mag a - mag b \<noteq> 0 then round_int (mag a - mag b)
      else if a = NZero \<and> b = Fin 0 then NZero else Fin 0)"

text \<open>The operator \<open>a < b\<close>: false whenever an operand is \<open>NaN\<close>; the two zeros are equal.\<close>

fun js_lt :: "int number \<Rightarrow> int number \<Rightarrow> bool" where
  "js_lt NaN _ = False"
| "js_lt _ NaN = False"
| "js_lt PInf _ = False"
| "js_lt _ PInf = True"
| "js_lt _ NInf = False"
| "js_lt NInf _ = True"
| "js_lt a b = (mag a < mag b)"

text \<open>
  \<open>Math.max\<close> of the arguments: negative infinity when there is none, \<open>NaN\<close> as soon as
  one of them is \<open>NaN\<close>, and the positive zero is larger than the negative one.
\<close>

definition js_max2 :: "int number \<Rightarrow> int number \<Rightarrow> int number" where
  "js_max2 a b =
     (if a = NaN \<or> b = NaN then NaN
      else if js_lt a b then b
      else if js_lt b a then a
      else if a = NZero then b else a)"

definition Math_max :: "int number list \<Rightarrow> int number" where
  "Math_max xs = foldl js_max2 NInf xs"

text \<open>
  \<open>Number.prototype.toString\<close> in base ten. An integer below \<open>2^53\<close> in magnitude is
  printed as its decimal numeral. For a larger double the digits are the shortest that
  read back as the double, in exponent notation from \<open>10^21\<close> on, and the standard
  leaves the last digit to the engine: these strings are the parameter \<open>long\<close>.
\<close>

definition digit_char :: "nat \<Rightarrow> char" where
  "digit_char d = ''0123456789'' ! d"

fun digits10 :: "nat \<Rightarrow> string" where
  "digits10 n = (if n < 10 then [digit_char n] else digits10 (n div 10) @ [digit_char (n mod 10)])"

declare digits10.simps [simp del]

fun Number_toString :: "(int \<Rightarrow> string) \<Rightarrow> int number \<Rightarrow> string" where
  "Number_toString long (Fin n) =
     (if \<bar>n\<bar> < 2 ^ 53
      then (if n < 0 then CHR ''-'' # digits10 (nat (- n)) else digits10 (nat n))
      else long n)"
| "Number_toString long NZero = ''0''"
| "Number_toString long PInf = ''Infinity''"
| "Number_toString long NInf = ''-Infinity''"
| "Number_toString long NaN = ''NaN''"

text \<open>\<open>String.prototype.padStart\<close> and \<open>padEnd\<close> with the default filler, a space.\<close>

definition padStart :: "nat \<Rightarrow> string \<Rightarrow> string" where
  "padStart n s = replicate (n - length s) CHR '' '' @ s"

definition padEnd :: "nat \<Rightarrow> string \<Rightarrow> string" where
  "padEnd n s = s @ replicate (n - length s) CHR '' ''"

section \<open>The CSV parser\<close>

text \<open>
  \<open>String.prototype.split\<close> with a string separator and no limit. With no separator
  (\<open>undefined\<close>) the result is the whole string as one element; with the empty separator
  it is the code units of the string, none for the empty string; otherwise the string
  is cut at every occurrence of the separator, found from left to right.
\<close>

definition startsWith :: "string \<Rightarrow> string \<Rightarrow> bool" where
  "startsWith s p = (take (length p) s = p)"

fun split_at :: "string \<Rightarrow> string \<Rightarrow> string \<Rightarrow> string list" where
  "split_at sep acc [] = [rev acc]"
| "split_at sep acc (c # cs) =
     (if startsWith (c # cs) sep then rev acc # split_at sep [] (drop (length sep - 1) cs)
      else split_at sep (c # acc) cs)"

definition String_split :: "string \<Rightarrow> jsval \<Rightarrow> string list" where
  "String_split s sep =
     (case sep of
        Undefined \<Rightarrow> [s]
      | Str p \<Rightarrow> if p = [] then map (\<lambda>c. [c]) s else split_at p [] s)"

text \<open>
  An options object maps property names to values. Reading a property that is not there
  gives \<open>undefined\<close>, which is falsy and, as a separator, no separator.
\<close>

datatype optval = OBool bool | OStr string

type_synonym options = "string \<rightharpoonup> optval"

fun truthy :: "optval option \<Rightarrow> bool" where
  "truthy None = False"
| "truthy (Some (OBool b)) = b"
| "truthy (Some (OStr s)) = (s \<noteq> [])"

fun separator_of :: "optval option \<Rightarrow> jsval" where
  "separator_of None = Undefined"
| "separator_of (Some (OStr s)) = Str s"
| "separator_of (Some (OBool b)) = Str (if b then ''true'' else ''false'')"

text \<open>
  \<open>CSV.DEFAULT_OPTIONS\<close> and \<open>#makeTable\<close>. The repository holds two versions of the class:
  the later one (the file that exports its classes) names the separator \<open>separator\<close>;
  \<open>Unit1/Task1/soc-opt-class.js\<close> spells the property \<open>seprator\<close>, in the defaults and
  in \<open>#makeTable\<close>. The definitions of the latter carry the suffix \<open>Task1\<close>.
\<close>

definition DEFAULT_OPTIONS :: options where
  "DEFAULT_OPTIONS =
     [''headers'' \<mapsto> OBool True, ''eol'' \<mapsto> OStr [CHR 0x0A], ''separator'' \<mapsto> OStr '','']"

definition DEFAULT_OPTIONS_Task1 :: options where
  "DEFAULT_OPTIONS_Task1 =
     [''headers'' \<mapsto> OBool True, ''eol'' \<mapsto> OStr [CHR 0x0A], ''seprator'' \<mapsto> OStr '','']"

definition makeTable :: "string \<Rightarrow> options \<Rightarrow> string list list" where
  "makeTable text opts =
     (let lines = String_split text (separator_of (opts ''eol''))
      in map (\<lambda>line. String_split line (separator_of (opts ''separator''))) lines)"

definition makeTable_Task1 :: "string \<Rightarrow> options \<Rightarrow> string list list" where
  "makeTable_Task1 text opts =
     (let lines = String_split text (separator_of (opts ''eol''))
      in map (\<lambda>line. String_split line (separator_of (opts ''seprator''))) lines)"

text \<open>
  A field record is the object \<open>Object.fromEntries\<close> builds: a later entry replaces an
  earlier one with the same key. \<open>row[index]\<close> past the end of the row is \<open>undefined\<close>.
\<close>

type_synonym field_record = "string \<rightharpoonup> jsval"

definition Object_fromEntries :: "(string \<times> jsval) list \<Rightarrow> field_record" where
  "Object_fromEntries es = foldl (\<lambda>m (k, v). m(k \<mapsto> v)) Map.empty es"

definition row_at :: "string list \<Rightarrow> nat \<Rightarrow> jsval" where
  "row_at row i = (if i < length row then Str (row ! i) else Undefined)"

text \<open>The entries of \<open>#createRecord\<close>, \<open>headers.map((header, index) => [header, row[index]])\<close>.\<close>

definition entries :: "string list \<Rightarrow> string list \<Rightarrow> (string \<times> jsval) list" where
  "entries headers row =
     map (\<lambda>(header, index). (header, row_at row index)) (zip headers [0..<length headers])"

definition createRecord :: "string list \<Rightarrow> string list \<Rightarrow> field_record" where
  "createRecord headers row = Object_fromEntries (entries headers row)"

text \<open>
  \<open>#withHeaders\<close>: the first row is the header row. On a table with no row at all the
  header row is \<open>undefined\<close>, and so is never used: the body is empty as well.
\<close>

fun withHeaders :: "string list list \<Rightarrow> field_record list" where
  "withHeaders [] = []"
| "withHeaders (headers # body) = map (\<lambda>row. createRecord headers row) body"

datatype parsed = Records "field_record list" | Table "string list list"

definition parse :: "string \<Rightarrow> options \<Rightarrow> parsed" where
  "parse text opts =
     (let table = makeTable text opts
      in if truthy (opts ''headers'') then Records (withHeaders table) else Table table)"

definition parse_Task1 :: "string \<Rightarrow> options \<Rightarrow> parsed" where
  "parse_Task1 text opts =
     (let table = makeTable_Task1 text opts
      in if truthy (opts ''headers'') then Records (withHeaders table) else Table table)"

text \<open>
  Options objects are shared by reference: an instance keeps the reference it was given,
  and \<open>Object.assign\<close> writes into its target. The store holds the options objects, an
  address being an index; \<open>CSV.DEFAULT_OPTIONS\<close> is the object at address 0. A reference
  a caller passes is the address of an object of the store. An argument that is left out
  is \<open>None\<close>.
\<close>

type_synonym store = "options list"

record CSV =
  csv :: string
  options :: nat

definition new_CSV :: "string option \<Rightarrow> nat option \<Rightarrow> CSV" where
  "new_CSV text opts =
     \<lparr>csv = (case text of None \<Rightarrow> [] | Some s \<Rightarrow> s),
      options = (case opts of None \<Rightarrow> 0 | Some a \<Rightarrow> a)\<rparr>"

text \<open>
  \<open>CSV.from\<close> of the later version: \<open>new CSV(csv, { ...CSV.DEFAULT_OPTIONS, ...options })\<close>,
  a new object in which the properties of \<open>options\<close> replace the defaults.
\<close>

definition CSV_from :: "string \<Rightarrow> nat option \<Rightarrow> store \<Rightarrow> CSV \<times> store" where
  "CSV_from text opts st =
     (let given = (case opts of None \<Rightarrow> Map.empty | Some a \<Rightarrow> st ! a);
          resolved = (st ! 0) ++ given
      in (\<lparr>csv = text, options = length st\<rparr>, st @ [resolved]))"

text \<open>
  \<open>CSV.from\<close> of \<open>Unit1/Task1\<close>:
  \<open>new CSV(csv, Object.assign(options || {}, CSV.DEFAULT_OPTIONS))\<close>. The target of the
  assignment is the caller's object (a new one when there is none), and the properties
  of the defaults replace the target's.
\<close>

definition CSV_from_Task1 :: "string \<Rightarrow> nat option \<Rightarrow> store \<Rightarrow> CSV \<times> store" where
  "CSV_from_Task1 text opts st =
     (case opts of
        None \<Rightarrow> (\<lparr>csv = text, options = length st\<rparr>, st @ [Map.empty ++ (st ! 0)])
      | Some a \<Rightarrow> (\<lparr>csv = text, options = a\<rparr>, st[a := (st ! a) ++ (st ! 0)]))"

definition CSV_parse :: "CSV \<Rightarrow> store \<Rightarrow> parsed" where
  "CSV_parse this st = parse (csv this) (st ! options this)"

definition CSV_parse_Task1 :: "CSV \<Rightarrow> store \<Rightarrow> parsed" where
  "CSV_parse_Task1 this st = parse_Task1 (csv this) (st ! options this)"

section \<open>Region\<close>

record Region =
  city :: jsval
  population :: "int number"
  area :: "int number"
  density :: "int number"
  country :: jsval

definition densityRelativeTo :: "Region \<Rightarrow> int number \<Rightarrow> int number" where
  "densityRelativeTo r v = Math_round (js_div (js_mul (density r) (Fin 100)) v)"

text \<open>
  \<open>parseInt(v, 10)\<close>: the argument is turned into a string, white space at its start is
  skipped, then one sign is read, then the decimal digits up to the first other
  character. No digit there gives \<open>NaN\<close>; a value of zero keeps the sign; any other
  value is the double nearest to the integer the digits denote. (Past the 20th
  significant digit the standard lets an engine read the digits as zeros; the model
  reads them all.)
\<close>

fun ToString :: "jsval \<Rightarrow> string" where
  "ToString (Str s) = s"
| "ToString Undefined = ''undefined''"

definition is_white :: "char \<Rightarrow> bool" where
  "is_white c = ((of_char c :: nat) \<in> {9, 10, 11, 12, 13, 32, 160})"

definition is_digit :: "char \<Rightarrow> bool" where
  "is_digit c = (48 \<le> (of_char c :: nat) \<and> (of_char c :: nat) \<le> 57)"

definition decimal :: "string \<Rightarrow> int" where
  "decimal z = foldl (\<lambda>acc c. 10 * acc + (int (of_char c) - 48)) 0 z"

definition parseInt :: "jsval \<Rightarrow> int number" where
  "parseInt v =
     (let s = dropWhile is_white (ToString v);
          neg = (case s of [] \<Rightarrow> False | c # _ \<Rightarrow> c = CHR ''-'');
          body = (case s of [] \<Rightarrow> [] | c # cs \<Rightarrow> if c = CHR ''-'' \<or> c = CHR ''+'' then cs else s);
          z = takeWhile is_digit body
      in if z = [] then NaN
         else if decimal z = 0 then (if neg then NZero else Fin 0)
         else round_int (if neg then - decimal z else decimal z))"

text \<open>Reading a property of a field record: \<open>undefined\<close> when the record does not have it.\<close>

definition get_prop :: "field_record \<Rightarrow> string \<Rightarrow> jsval" where
  "get_prop rec k = (case rec k of None \<Rightarrow> Undefined | Some v \<Rightarrow> v)"

definition Region_from :: "field_record \<Rightarrow> Region" where
  "Region_from rec =
     \<lparr>city = get_prop rec ''city'',
      population = parseInt (get_prop rec ''population''),
      area = parseInt (get_prop rec ''area''),
      density = parseInt (get_prop rec ''density''),
      country = get_prop rec ''country''\<rparr>"

section \<open>RegionCollection\<close>

record RegionCollection =
  regions :: "Region list"

definition RegionCollection_from :: "field_record list \<Rightarrow> RegionCollection" where
  "RegionCollection_from data = \<lparr>regions = map Region_from data\<rparr>"

text \<open>
  \<open>Array.prototype.pop\<close> removes the last element; an empty array stays empty. The
  methods \<open>size\<close> and \<open>at\<close> are \<open>size_of\<close> and \<open>at_index\<close> here; \<open>at\<close> counts a negative
  index from the end and returns nothing (\<open>undefined\<close>) out of range.
\<close>

definition pop :: "RegionCollection \<Rightarrow> RegionCollection" where
  "pop c = c\<lparr>regions := butlast (regions c)\<rparr>"

definition size_of :: "RegionCollection \<Rightarrow> nat" where
  "size_of c = length (regions c)"

definition at_index :: "RegionCollection \<Rightarrow> int \<Rightarrow> Region option" where
  "at_index c index =
     (let len = int (length (regions c));
          k = (if 0 \<le> index then index else len + index)
      in if k < 0 \<or> len \<le> k then None else Some (regions c ! nat k))"

definition maxDensity :: "RegionCollection \<Rightarrow> int number" where
  "maxDensity c = Math_max (map density (regions c))"

text \<open>
  \<open>Array.prototype.sort\<close> with a comparator. The sort is stable, and a comparator that
  returns \<open>NaN\<close> has returned zero; the order is the implementation's own choice only
  for a comparator that is not consistent. The model is the stable insertion sort: an
  element moves behind the elements the comparator puts strictly before it.
\<close>

fun insert_by :: "('a \<Rightarrow> 'a \<Rightarrow> int number) \<Rightarrow> 'a \<Rightarrow> 'a list \<Rightarrow> 'a list" where
  "insert_by cmp x [] = [x]"
| "insert_by cmp x (y # ys) =
     (if js_lt (Fin 0) (cmp x y) then y # insert_by cmp x ys else x # y # ys)"

definition Array_sort :: "('a \<Rightarrow> 'a \<Rightarrow> int number) \<Rightarrow> 'a list \<Rightarrow> 'a list" where
  "Array_sort cmp xs = foldr (insert_by cmp) xs []"

text \<open>
  A comparator is consistent on a set of elements when "comes after" is asymmetric and
  "does not come after" is transitive there: the elements fall into classes of ties, and the
  classes are in a line. For such a comparator every stable sort gives the same order.
  The comparator of \<open>sortByRelativeDensity\<close> is consistent on every collection
  (\<open>comparator_consistent\<close> below).
\<close>

definition consistent_on :: "('a \<Rightarrow> 'a \<Rightarrow> int number) \<Rightarrow> 'a set \<Rightarrow> bool" where
  "consistent_on cmp S =
     ((\<forall>a\<in>S. \<forall>b\<in>S. js_lt (Fin 0) (cmp a b) \<longrightarrow> \<not> js_lt (Fin 0) (cmp b a)) \<and>
      (\<forall>a\<in>S. \<forall>b\<in>S. \<forall>c\<in>S.
         \<not> js_lt (Fin 0) (cmp a b) \<longrightarrow> \<not> js_lt (Fin 0) (cmp b c) \<longrightarrow> \<not> js_lt (Fin 0) (cmp a c)))"

text \<open>The comparator of \<open>sortByRelativeDensity\<close>, for the maximum \<open>m\<close> computed before the sort.\<close>

definition comparator :: "int number \<Rightarrow> Region \<Rightarrow> Region \<Rightarrow> int number" where
  "comparator m a b = js_sub (densityRelativeTo b m) (densityRelativeTo a m)"

definition sortByRelativeDensity :: "RegionCollection \<Rightarrow> RegionCollection" where
  "sortByRelativeDensity c =
     (let m = maxDensity c in c\<lparr>regions := Array_sort (comparator m) (regions c)\<rparr>)"

text \<open>The mutations of a collection, and a sequence of them.\<close>

datatype mutation = PopLast | SortByRelativeDensity

fun mutate :: "RegionCollection \<Rightarrow> mutation \<Rightarrow> RegionCollection" where
  "mutate c PopLast = pop c"
| "mutate c SortByRelativeDensity = sortByRelativeDensity c"

definition mutations :: "RegionCollection \<Rightarrow> mutation list \<Rightarrow> RegionCollection" where
  "mutations c ms = foldl mutate c ms"

section \<open>RegionCollectionView\<close>

text \<open>
  Calling \<open>padEnd\<close> or \<open>padStart\<close> on \<open>undefined\<close> raises a \<open>TypeError\<close>. The output stream
  is the list of the strings given to \<open>console.log\<close>, one for each call. The later version
  builds a line with the helpers \<open>#makeDefaultFragments\<close> and
  \<open>#makeRelativeDensityFragment\<close>; \<open>Unit1/Task1\<close> has the same two steps written out in
  \<open>#composeLine\<close>.
\<close>

datatype error = TypeError

record view_options =
  relativeDensity :: bool

definition VIEW_DEFAULT_OPTIONS :: view_options where
  "VIEW_DEFAULT_OPTIONS = \<lparr>relativeDensity = True\<rparr>"

definition makeDefaultFragments :: "(int \<Rightarrow> string) \<Rightarrow> Region \<Rightarrow> error + string list" where
  "makeDefaultFragments long r =
     (case city r of
        Undefined \<Rightarrow> Inl TypeError
      | Str c \<Rightarrow>
          (case country r of
             Undefined \<Rightarrow> Inl TypeError
           | Str k \<Rightarrow>
               Inr [padEnd 18 c,
                    padStart 10 (Number_toString long (population r)),
                    padStart 8 (Number_toString long (area r)),
                    padStart 8 (Number_toString long (density r)),
                    padStart 18 k]))"

definition makeRelativeDensityFragment ::
  "(int \<Rightarrow> string) \<Rightarrow> RegionCollection \<Rightarrow> Region \<Rightarrow> string" where
  "makeRelativeDensityFragment long c r =
     (let m = maxDensity c; relative = densityRelativeTo r m
      in padStart 6 (Number_toString long relative))"

definition composeLine ::
  "(int \<Rightarrow> string) \<Rightarrow> RegionCollection \<Rightarrow> Region \<Rightarrow> view_options \<Rightarrow> error + string" where
  "composeLine long c r opts =
     (case makeDefaultFragments long r of
        Inl e \<Rightarrow> Inl e
      | Inr fragments \<Rightarrow>
          Inr (concat (if relativeDensity opts
                       then fragments @ [makeRelativeDensityFragment long c r]
                       else fragments)))"

fun map_lines :: "('a \<Rightarrow> error + 'b) \<Rightarrow> 'a list \<Rightarrow> error + 'b list" where
  "map_lines f [] = Inr []"
| "map_lines f (x # xs) =
     (case f x of
        Inl e \<Rightarrow> Inl e
      | Inr y \<Rightarrow> (case map_lines f xs of Inl e \<Rightarrow> Inl e | Inr ys \<Rightarrow> Inr (y # ys)))"

fun join :: "string \<Rightarrow> string list \<Rightarrow> string" where
  "join sep [] = []"
| "join sep [x] = x"
| "join sep (x # y # ys) = x @ sep @ join sep (y # ys)"

definition View_print ::
  "(int \<Rightarrow> string) \<Rightarrow> RegionCollection \<Rightarrow> view_options \<Rightarrow> string list \<Rightarrow> error + string list" where
  "View_print long c opts out =
     (case map_lines (\<lambda>r. composeLine long c r opts) (regions c) of
        Inl e \<Rightarrow> Inl e
      | Inr lines \<Rightarrow> Inr (out @ [join [CHR 0x0A] lines]))"

section \<open>Inputs of the examples\<close>

definition City200 :: Region where
  "City200 =
     \<lparr>city = Str ''City'', population = Fin 1000, area = Fin 100, density = Fin 200,
      country = Str ''Country''\<rparr>"

definition Flat :: Region where
  "Flat =
     \<lparr>city = Str ''Flat'', population = Fin 0, area = Fin 10, density = Fin 0,
      country = Str ''Nowhere''\<rparr>"

definition Sunk :: Region where
  "Sunk =
     \<lparr>city = Str ''Sunk'', population = Fin 0, area = Fin 10, density = Fin (- 5),
      country = Str ''Nowhere''\<rparr>"



definition Names :: "string list" where
  "Names = [''name'', ''age'', ''city'']"

definition CityA :: Region where
  "CityA =
     \<lparr>city = Str ''CityA'', population = Fin 1000, area = Fin 50, density = Fin 20,
      country = Str ''CountryA''\<rparr>"

definition CityB :: Region where
  "CityB =
     \<lparr>city = Str ''CityB'', population = Fin 2000, area = Fin 100, density = Fin 30,
      country = Str ''CountryB''\<rparr>"

definition CityC :: Region where
  "CityC =
     \<lparr>city = Str ''CityC'', population = Fin 3000, area = Fin 150, density = Fin 25,
      country = Str ''CountryC''\<rparr>"

definition CityE :: Region where
  "CityE =
     \<lparr>city = Str ''CityE'', population = Fin 1000, area = Fin 100, density = Fin 10,
      country = Str ''CountryE''\<rparr>"

definition CityF :: Region where
  "CityF =
     \<lparr>city = Str ''CityF'', population = Fin 2000, area = Fin 50, density = Fin 40,
      country = Str ''CountryF''\<rparr>"

definition CityG :: Region where
  "CityG =
     \<lparr>city = Str ''CityG'', population = Fin 3000, area = Fin 100, density = Fin 30,
      country = Str ''CountryG''\<rparr>"

definition CityH :: Region where
  "CityH =
     \<lparr>city = Str ''CityH'', population = Fin 600, area = Fin 20, density = Fin 30,
      country = Str ''CountryH''\<rparr>"

definition Cities :: RegionCollection where
  "Cities = \<lparr>regions = [CityE, CityF, CityG, CityH]\<rparr>"

definition Rendered :: string where
  "Rendered =
     ''CityE                   1000     100      10          CountryE    25'' @ [CHR 0x0A] @
     ''CityF                   2000      50      40          CountryF   100''"

text \<open>
  Densities for which the quotient \<open>density * 100 / maximum\<close> is not a double: the
  first is a little less than 64.5 and rounds to the double 64.5.
\<close>

definition MetroA :: Region where
  "MetroA =
     \<lparr>city = Str ''MetroA'', population = Fin 1, area = Fin 1, density = Fin 45387839994661,
      country = Str ''X''\<rparr>"

definition MetroB :: Region where
  "MetroB =
     \<lparr>city = Str ''MetroB'', population = Fin 1, area = Fin 1, density = Fin 45739683715550,
      country = Str ''X''\<rparr>"

definition MetroM :: Region where
  "MetroM =
     \<lparr>city = Str ''MetroM'', population = Fin 1, area = Fin 1, density = Fin 70368744177769,
      country = Str ''X''\<rparr>"

definition Metros :: RegionCollection where
  "Metros = \<lparr>regions = [MetroA, MetroB, MetroM]\<rparr>"

text \<open>A stand-in for the digits of the long numbers, which the examples do not reach.\<close>

definition No_long :: "int \<Rightarrow> string" where
  "No_long n = []"

definition Semicolons :: options where
  "Semicolons =
     [''headers'' \<mapsto> OBool False, ''eol'' \<mapsto> OStr [CHR 0x0D, CHR 0x0A], ''separator'' \<mapsto> OStr '';'']"

definition SemicolonText :: string where
  "SemicolonText = ''a;b'' @ [CHR 0x0D, CHR 0x0A] @ ''1;2''"

section \<open>Rounding to a double\<close>

lemma round_even_floor: "\<lfloor>x\<rfloor> \<le> round_even x"
  by (simp add: round_even_def Let_def)

lemma round_even_of_int: "round_even (of_int k) = k"
  by (simp add: round_even_def)

lemma ilog2_bounds:
  assumes "1 \<le> q"
  shows "0 \<le> ilog2 q" and "power_int 2 (ilog2 q) \<le> q" and "q < power_int 2 (ilog2 q + 1)"
proof -
  have f: "0 < \<lfloor>q\<rfloor>"
    using assms by simp
  from bitlen_bounds [OF f] have lo: "2 ^ nat (bitlen \<lfloor>q\<rfloor> - 1) \<le> \<lfloor>q\<rfloor>"
    and hi: "\<lfloor>q\<rfloor> < 2 ^ nat (bitlen \<lfloor>q\<rfloor>)"
    by simp_all
  have b: "1 \<le> bitlen \<lfloor>q\<rfloor>"
    using f bitlen_eq_zero_iff [of "\<lfloor>q\<rfloor>"] bitlen_nonneg [of "\<lfloor>q\<rfloor>"] by linarith
  show "0 \<le> ilog2 q"
    using assms b by (simp add: ilog2_def)
  have "(2::rat) ^ nat (bitlen \<lfloor>q\<rfloor> - 1) = of_int (2 ^ nat (bitlen \<lfloor>q\<rfloor> - 1))"
    by simp
  also have "\<dots> \<le> of_int \<lfloor>q\<rfloor>"
    using lo by (simp only: of_int_le_iff)
  also have "\<dots> \<le> q"
    by simp
  finally show "power_int 2 (ilog2 q) \<le> q"
    using assms b by (simp add: ilog2_def power_int_def)
  have "\<lfloor>q\<rfloor> + 1 \<le> 2 ^ nat (bitlen \<lfloor>q\<rfloor>)"
    using hi by simp
  then have "(of_int (\<lfloor>q\<rfloor> + 1) :: rat) \<le> of_int (2 ^ nat (bitlen \<lfloor>q\<rfloor>))"
    by (simp only: of_int_le_iff)
  moreover have "q < of_int (\<lfloor>q\<rfloor> + 1)"
    by linarith
  ultimately have "q < 2 ^ nat (bitlen \<lfloor>q\<rfloor>)"
    by simp
  then show "q < power_int 2 (ilog2 q + 1)"
    using assms b by (simp add: ilog2_def power_int_def)
qed

lemma round_pos_not_NaN: "round_pos q \<noteq> NaN" "round_pos q \<noteq> NInf" "round_pos q \<noteq> NZero"
  by (simp_all add: round_pos_def Let_def)

lemma round_pos_ge_1:
  assumes "1 \<le> q"
  shows "round_pos q = PInf \<or> (\<exists>v. round_pos q = Fin v \<and> 1 \<le> v)"
proof -
  define e where "e = ilog2 q"
  define u :: rat where "u = power_int 2 (e - 52)"
  define v where "v = of_int (round_even (q / u)) * u"
  have e: "0 \<le> e" "power_int 2 e \<le> q"
    using ilog2_bounds [OF assms] by (simp_all add: e_def)
  have u: "0 < u"
    by (simp add: u_def)
  have "power_int 2 e = (2::rat) ^ 52 * u"
    by (simp add: u_def power_int_diff)
  with e(2) u have "(2::rat) ^ 52 \<le> q / u"
    by (simp add: pos_le_divide_eq)
  then have "(2::int) ^ 52 \<le> \<lfloor>q / u\<rfloor>"
    by (simp add: le_floor_iff)
  with round_even_floor [of "q / u"] have "(2::int) ^ 52 \<le> round_even (q / u)"
    by linarith
  then have "(2::rat) ^ 52 \<le> of_int (round_even (q / u))"
    by (metis of_int_le_iff of_int_numeral of_int_power)
  with u have "(2::rat) ^ 52 * u \<le> v"
    by (simp add: v_def)
  moreover have "1 \<le> (2::rat) ^ 52 * u"
    using e(1) \<open>power_int 2 e = (2::rat) ^ 52 * u\<close> one_le_power_int [of "2::rat" e] by simp
  ultimately have "1 \<le> v"
    by linarith
  moreover have "round_pos q = (if power_int 2 1024 \<le> v then PInf else Fin v)"
    using e(1) by (simp add: round_pos_def Let_def v_def u_def e_def max_def)
  ultimately show ?thesis
    by auto
qed

lemma round_pos_exact:
  assumes "1 \<le> n" and "n < 2 ^ 53"
  shows "round_pos (of_int n) = Fin (of_int n)"
proof -
  define e where "e = ilog2 (of_int n)"
  define u :: rat where "u = power_int 2 (e - 52)"
  have q: "(1::rat) \<le> of_int n"
    using assms(1) by simp
  have e: "0 \<le> e" "power_int 2 e \<le> (of_int n :: rat)"
    using ilog2_bounds [OF q] by (simp_all add: e_def)
  have "power_int (2::rat) e < power_int 2 53"
  proof -
    have "(of_int n :: rat) < of_int (2 ^ 53)"
      using assms(2) by (simp only: of_int_less_iff)
    with e(2) show ?thesis
      by simp
  qed
  then have e53: "e < 53"
    using power_int_increasing [of 53 e "2::rat"] by (cases "e < 53") simp_all
  define k where "k = nat (52 - e)"
  have u: "u = 1 / 2 ^ k"
    using e53 e(1) by (simp add: u_def k_def power_int_def inverse_eq_divide power_one_over)
  have "of_int n / u = (of_int (n * 2 ^ k) :: rat)"
    by (simp add: u)
  then have "round_even (of_int n / u) = n * 2 ^ k"
    by (simp only: round_even_of_int)
  then have v: "of_int (round_even (of_int n / u)) * u = (of_int n :: rat)"
    by (simp add: u)
  have "(of_int n :: rat) < of_int (2 ^ 53)"
    using assms(2) by (simp only: of_int_less_iff)
  also have "\<dots> \<le> power_int 2 1024"
    by simp
  finally have "\<not> power_int 2 1024 \<le> (of_int n :: rat)"
    by simp
  then show ?thesis
    using e(1) v by (simp add: round_pos_def Let_def max_def flip: e_def u_def)
qed

lemma round_int_pos: "0 < n \<Longrightarrow> round_int n = PInf \<or> (\<exists>k. round_int n = Fin k \<and> 0 < k)"
proof -
  assume "0 < n"
  then have q: "(1::rat) \<le> of_int n"
    by simp
  from round_pos_ge_1 [OF q] \<open>0 < n\<close> show ?thesis
    by (auto simp: round_int_def to_double_def)
qed

lemma round_int_neg: "n < 0 \<Longrightarrow> round_int n = NInf \<or> (\<exists>k. round_int n = Fin k \<and> k < 0)"
proof -
  assume "n < 0"
  then have q: "(1::rat) \<le> - of_int n"
    by (metis int_one_le_iff_zero_less neg_0_less_iff_less of_int_1_le_iff of_int_minus)
  from round_pos_ge_1 [OF q] \<open>n < 0\<close> show ?thesis
    by (auto simp: round_int_def to_double_def)
qed

lemma round_int_zero: "round_int 0 = Fin 0"
  by code_simp

lemma round_int_exact: "\<bar>n\<bar> < 2 ^ 53 \<Longrightarrow> round_int n = Fin n"
proof -
  assume a: "\<bar>n\<bar> < 2 ^ 53"
  consider "n = 0" | "1 \<le> n" | "1 \<le> - n"
    by linarith
  then show ?thesis
  proof cases
    case 1
    then show ?thesis by (simp add: round_int_zero)
  next
    case 2
    with a round_pos_exact [of n] show ?thesis
      by (simp add: round_int_def to_double_def)
  next
    case 3
    with a round_pos_exact [of "- n"] show ?thesis
      by (simp add: round_int_def to_double_def)
  qed
qed


lemma to_double_of_int: "\<bar>k\<bar> < 2 ^ 53 \<Longrightarrow> to_double (of_int k) = Fin (of_int k)"
proof -
  assume a: "\<bar>k\<bar> < 2 ^ 53"
  have z: "round_pos 0 = Fin 0"
    by (simp add: round_pos_def ilog2_def round_even_def)
  consider "k = 0" | "1 \<le> k" | "1 \<le> - k"
    by linarith
  then show ?thesis
  proof cases
    case 1
    then show ?thesis by (simp add: to_double_def z)
  next
    case 2
    with a round_pos_exact [of k] show ?thesis
      by (simp add: to_double_def)
  next
    case 3
    with a round_pos_exact [of "- k"] show ?thesis
      by (simp add: to_double_def)
  qed
qed

lemma to_double_not_NaN: "to_double q \<noteq> NaN"
proof -
  have "negate x \<noteq> NaN" if "x \<noteq> NaN" for x
    using that by (cases x) auto
  then show ?thesis
    by (simp add: to_double_def round_pos_not_NaN)
qed

lemma Math_round_not_NaN: "x \<noteq> NaN \<Longrightarrow> Math_round x \<noteq> NaN"
  by (cases x) (auto simp: Let_def)

lemma Math_round_of_int: "Math_round (Fin (of_int k)) = Fin k"
proof -
  have "\<lfloor>(of_int k :: rat) + 1 / 2\<rfloor> = k"
    by (simp add: floor_eq_iff)
  then show ?thesis
    by (auto simp: Let_def)
qed

lemma round_int_sign: "js_lt (Fin 0) (round_int d) \<longleftrightarrow> 0 < d"
proof -
  consider "d = 0" | "0 < d" | "d < 0"
    by linarith
  then show ?thesis
  proof cases
    case 1
    then show ?thesis by (simp add: round_int_zero)
  next
    case 2
    with round_int_pos [OF 2] show ?thesis by auto
  next
    case 3
    with round_int_neg [OF 3] show ?thesis by auto
  qed
qed

text \<open>
  The double of a quotient \<open>a / b\<close> of integers with \<open>2^e \<le> a / b < 2^(e+1)\<close>, given the
  multiple \<open>n\<close> of \<open>2^(e-52)\<close> that is nearest to it; and \<open>Math.round\<close> of such a double.
\<close>

lemma ilog2_unique:
  assumes "0 \<le> e" and "power_int 2 e \<le> q" and "q < power_int 2 (e + 1)"
  shows "ilog2 q = e"
proof -
  have "(1::rat) \<le> power_int 2 e"
    using assms(1) by (simp add: one_le_power_int)
  with assms(2) have q: "1 \<le> q"
    by linarith
  note b = ilog2_bounds [OF q]
  have "\<not> ilog2 q < e"
  proof
    assume "ilog2 q < e"
    then have "power_int (2::rat) (ilog2 q + 1) \<le> power_int 2 e"
      by (intro power_int_increasing) simp_all
    with b(3) assms(2) show False
      by linarith
  qed
  moreover have "\<not> e < ilog2 q"
  proof
    assume "e < ilog2 q"
    then have "power_int (2::rat) (e + 1) \<le> power_int 2 (ilog2 q)"
      by (intro power_int_increasing) simp_all
    with b(2) assms(3) show False
      by linarith
  qed
  ultimately show ?thesis
    by linarith
qed

lemma round_even_near: "\<bar>x - of_int n\<bar> < 1 / 2 \<Longrightarrow> round_even x = n"
proof -
  assume a: "\<bar>x - of_int n\<bar> < 1 / 2"
  show ?thesis
  proof (cases "of_int n \<le> x")
    case True
    with a have "x < of_int n + 1"
      by linarith
    with True have "\<lfloor>x\<rfloor> = n"
      by (simp add: floor_eq_iff)
    with a True show ?thesis
      by (simp add: round_even_def)
  next
    case False
    with a have "of_int n - 1 \<le> x" "x < of_int n"
      by linarith+
    then have f: "\<lfloor>x\<rfloor> = n - 1"
      by (simp add: floor_eq_iff)
    have "1 / 2 < x - of_int (n - 1)"
      using a False by simp
    then show ?thesis
      by (simp add: round_even_def Let_def f)
  qed
qed

lemma to_double_quotient:
  fixes a b n :: int
  assumes b: "0 < b" and e: "e \<le> 52"
    and lo: "2 ^ e * b \<le> a" and hi: "a < 2 * 2 ^ e * b"
    and n: "\<bar>2 * (a * 2 ^ (52 - e) - n * b)\<bar> < b"
  shows "to_double (of_int a / of_int b) = Fin (of_int n / 2 ^ (52 - e))"
proof -
  define q :: rat where "q = of_int a / of_int b"
  define k where "k = 52 - e"
  have b': "(0::rat) < of_int b"
    using b by simp
  have "(of_int (2 ^ e * b) :: rat) \<le> of_int a"
    using lo by (simp only: of_int_le_iff)
  then have qlo: "2 ^ e \<le> q"
    using b' by (simp add: q_def pos_le_divide_eq)
  have "(of_int a :: rat) < of_int (2 * 2 ^ e * b)"
    using hi by (simp only: of_int_less_iff)
  then have qhi: "q < 2 * 2 ^ e"
    using b' by (simp add: q_def pos_divide_less_eq)
  have il: "ilog2 q = int e"
    using qlo qhi by (intro ilog2_unique) (simp_all add: power_int_add)
  have u: "power_int (2::rat) (int e - 52) = 1 / 2 ^ k"
    using e by (simp add: k_def power_int_def inverse_eq_divide power_one_over nat_diff_distrib)
  define d where "d = a * 2 ^ k - n * b"
  have "q * 2 ^ k - of_int n = of_int d / of_int b"
    using b' by (simp add: q_def d_def field_simps)
  then have "\<bar>q * 2 ^ k - of_int n\<bar> = \<bar>of_int d\<bar> / of_int b"
    using b' by simp
  moreover have "(of_int \<bar>2 * d\<bar> :: rat) < of_int b"
    using n unfolding k_def d_def by (simp only: of_int_less_iff)
  then have "2 * \<bar>of_int d :: rat\<bar> < of_int b"
    by (simp add: abs_mult)
  ultimately have "\<bar>q * 2 ^ k - of_int n\<bar> < 1 / 2"
    using b' by (simp add: pos_divide_less_eq)
  then have r: "round_even (q * 2 ^ k) = n"
    by (rule round_even_near)
  have "of_int n < q * 2 ^ k + 1"
    using \<open>\<bar>q * 2 ^ k - of_int n\<bar> < 1 / 2\<close> by linarith
  also have "\<dots> < 2 * 2 ^ e * 2 ^ k + 1"
    using qhi by simp
  also have "\<dots> = 2 ^ 53 + 1"
    using e by (simp add: k_def flip: power_add power_Suc)
  finally have "(of_int n :: rat) / 2 ^ k < 2 ^ 1024"
  proof -
    assume "(of_int n :: rat) < 2 ^ 53 + 1"
    moreover have "(of_int n :: rat) / 2 ^ k \<le> max (of_int n) 0"
      by (cases "0 \<le> n") (simp_all add: divide_le_eq mult_le_cancel_left1 max_def not_le
          divide_nonpos_pos less_imp_le)
    moreover have "(2::rat) ^ 53 + 1 \<le> 2 ^ 1024"
      by simp
    ultimately show ?thesis
      by (simp add: max_def split: if_splits)
  qed
  then have v: "\<not> power_int 2 1024 \<le> (of_int n :: rat) / 2 ^ k"
    by simp
  have "0 \<le> q"
    using qlo by (meson order_trans zero_le_numeral zero_le_power)
  then have "to_double q = round_pos q"
    by (simp add: to_double_def)
  also have "\<dots> = Fin (of_int n / 2 ^ k)"
    using v by (simp add: round_pos_def il u r Let_def max_def)
  finally show ?thesis
    by (simp only: q_def k_def)
qed

lemma Math_round_dyadic:
  "Math_round (Fin (of_int n / 2 ^ k)) =
     (if (2 * n + 2 ^ k) div 2 ^ Suc k = 0 then (if n < 0 then NZero else Fin 0)
      else Fin ((2 * n + 2 ^ k) div 2 ^ Suc k))"
proof -
  have "(of_int n :: rat) / 2 ^ k + 1 / 2 = of_int (2 * n + 2 ^ k) / of_int (2 ^ Suc k)"
    by (simp add: field_simps)
  then have "\<lfloor>(of_int n :: rat) / 2 ^ k + 1 / 2\<rfloor> = (2 * n + 2 ^ k) div 2 ^ Suc k"
    by (simp only: floor_divide_of_int_eq)
  moreover have "(of_int n :: rat) / 2 ^ k < 0 \<longleftrightarrow> n < 0"
    by (simp add: divide_less_0_iff)
  ultimately show ?thesis
    by (simp add: Let_def del: power_Suc)
qed


section \<open>Arithmetic of the relative density\<close>

lemmas num_defs = densityRelativeTo_def js_mul_def js_div_def is_zero_def is_inf_def

text \<open>The product \<open>density * 100\<close> has the sign of the density, and is never \<open>NaN\<close> unless the density is.\<close>

lemma times_100:
  "js_mul NaN (Fin 100) = NaN"
  "js_mul PInf (Fin 100) = PInf"
  "js_mul NInf (Fin 100) = NInf"
  "js_mul NZero (Fin 100) = NZero"
  "js_mul (Fin 0) (Fin 100) = Fin 0"
  by (simp_all add: js_mul_def is_zero_def is_inf_def)

lemma times_100_pos:
  "0 < n \<Longrightarrow> js_mul (Fin n) (Fin 100) = PInf \<or> (\<exists>k. js_mul (Fin n) (Fin 100) = Fin k \<and> 0 < k)"
  using round_int_pos [of "n * 100"] by (simp add: js_mul_def is_zero_def is_inf_def)

lemma times_100_neg:
  "n < 0 \<Longrightarrow> js_mul (Fin n) (Fin 100) = NInf \<or> (\<exists>k. js_mul (Fin n) (Fin 100) = Fin k \<and> k < 0)"
  using round_int_neg [of "n * 100"] by (simp add: js_mul_def is_zero_def is_inf_def)

text \<open>
  Where the product and the quotient are exact, so is the relative density: the rule
  the examples are evaluated with.
\<close>

lemma relative_exact:
  assumes "density r = Fin d" and "d * 100 = k * m" and "\<bar>d * 100\<bar> < 2 ^ 53" and "m \<noteq> 0" and "d \<noteq> 0"
  shows "densityRelativeTo r (Fin m) = Fin k"
proof -
  have "1 \<le> \<bar>m\<bar>"
    using assms(4) by simp
  then have "\<bar>k\<bar> * 1 \<le> \<bar>k\<bar> * \<bar>m\<bar>"
    by (intro mult_left_mono) simp_all
  then have k: "\<bar>k\<bar> \<le> \<bar>d * 100\<bar>"
    by (simp add: assms(2) abs_mult)
  have "d * 100 \<noteq> 0"
    using assms(5) by simp
  then have "js_mul (Fin d) (Fin 100) = round_int (d * 100)"
    by (simp add: js_mul_def is_zero_def is_inf_def)
  also have "\<dots> = Fin (d * 100)"
    using assms(3) by (rule round_int_exact)
  finally have p: "js_mul (Fin d) (Fin 100) = Fin (k * m)"
    by (simp only: assms(2))
  have km: "k * m \<noteq> 0"
    using assms by auto
  then have "js_div (Fin (k * m)) (Fin m) = to_double (of_int k)"
    using assms(4) by (simp add: js_div_def is_zero_def is_inf_def)
  also have "\<dots> = Fin (of_int k)"
    using k assms(3) by (intro to_double_of_int) linarith
  finally show ?thesis
    by (simp only: densityRelativeTo_def assms(1) p Math_round_of_int)
qed

theorem C4_densityRelativeTo:
  "(density r = Fin 200 \<longrightarrow> densityRelativeTo r (Fin 400) = Fin 50) \<and>
   (js_lt (Fin 0) (density r) \<longrightarrow> densityRelativeTo r (Fin 0) = PInf)"
proof (intro conjI impI)
  assume "density r = Fin 200"
  then show "densityRelativeTo r (Fin 400) = Fin 50"
    by (rule relative_exact) simp_all
next
  assume pos: "js_lt (Fin 0) (density r)"
  show "densityRelativeTo r (Fin 0) = PInf"
  proof (cases "density r")
    case (Fin n)
    with pos have "0 < n"
      by simp
    from times_100_pos [OF this] Fin show ?thesis
      by (auto simp: densityRelativeTo_def js_div_def is_zero_def is_inf_def)
  qed (use pos in \<open>auto simp: num_defs\<close>)
qed

theorem C4_densityRelativeTo_witness:
  "density City200 = Fin 200 \<and> js_lt (Fin 0) (density City200) \<and>
   densityRelativeTo City200 (Fin 400) = Fin 50 \<and> densityRelativeTo City200 (Fin 0) = PInf"
  using C4_densityRelativeTo [of City200] by (simp add: City200_def)

text \<open>
  C10. A region whose density is zero (of either sign) has the relative density \<open>NaN\<close>
  against the reference 0, not positive infinity. So in a collection whose maximum
  density is zero, the key \<open>sortByRelativeDensity\<close> computes for such a region is \<open>NaN\<close>,
  and the fragment the view renders for it is \<open>NaN\<close> padded to the width 6.
\<close>

theorem C10_zero_density_NaN:
  "is_zero (density r) \<longrightarrow>
     densityRelativeTo r (Fin 0) = NaN \<and>
     (is_zero (maxDensity c) \<longrightarrow>
        densityRelativeTo r (maxDensity c) = NaN \<and>
        makeRelativeDensityFragment long c r = ''   NaN'')"
proof (intro impI conjI)
  assume z: "is_zero (density r)"
  have key: "densityRelativeTo r m = NaN" if "is_zero m" for m
    using z that by (auto simp: num_defs)
  show "densityRelativeTo r (Fin 0) = NaN"
    by (rule key) (simp add: is_zero_def)
  assume "is_zero (maxDensity c)"
  then show "densityRelativeTo r (maxDensity c) = NaN"
    by (rule key)
  then show "makeRelativeDensityFragment long c r = ''   NaN''"
    by (simp add: makeRelativeDensityFragment_def padStart_def eval_nat_numeral)
qed

theorem C10_zero_density_NaN_witness:
  "is_zero (density Flat) \<and> is_zero (maxDensity \<lparr>regions = [Sunk, Flat]\<rparr>) \<and>
   densityRelativeTo Flat (Fin 0) = NaN \<and>
   densityRelativeTo Flat (maxDensity \<lparr>regions = [Sunk, Flat]\<rparr>) = NaN \<and>
   makeRelativeDensityFragment No_long \<lparr>regions = [Sunk, Flat]\<rparr> Flat = ''   NaN''"
proof -
  have d: "is_zero (density Flat)"
    by (simp add: Flat_def is_zero_def)
  have m: "is_zero (maxDensity \<lparr>regions = [Sunk, Flat]\<rparr>)"
    by (simp add: maxDensity_def Math_max_def js_max2_def Sunk_def Flat_def is_zero_def)
  show ?thesis
    using d m C10_zero_density_NaN [of Flat "\<lparr>regions = [Sunk, Flat]\<rparr>" No_long] by simp
qed

section \<open>Removing the last region\<close>

text \<open>
  C9. \<open>pop\<close> is a total function with no error result. On an empty collection it leaves
  the collection empty. On a collection that ends with the region \<open>x\<close> it removes exactly
  \<open>x\<close>: the regions before it stay, each at its index, and the size goes down by one.
\<close>

theorem C9_pop:
  "(regions c = [] \<longrightarrow> regions (pop c) = [] \<and> size_of (pop c) = 0) \<and>
   (\<forall>xs x. regions c = xs @ [x] \<longrightarrow>
      regions (pop c) = xs \<and> Suc (size_of (pop c)) = size_of c \<and>
      (\<forall>i < length xs. regions (pop c) ! i = regions c ! i))"
  by (auto simp: pop_def size_of_def nth_append)

theorem C9_pop_witness:
  "regions \<lparr>regions = []\<rparr> = [] \<and> regions (pop \<lparr>regions = []\<rparr>) = [] \<and>
   regions \<lparr>regions = [Sunk, Flat]\<rparr> = [Sunk] @ [Flat] \<and>
   regions (pop \<lparr>regions = [Sunk, Flat]\<rparr>) = [Sunk] \<and>
   size_of (pop \<lparr>regions = [Sunk, Flat]\<rparr>) = 1 \<and>
   regions (pop \<lparr>regions = [Sunk, Flat]\<rparr>) ! 0 = Sunk"
  using C9_pop [of "\<lparr>regions = []\<rparr>"] C9_pop [of "\<lparr>regions = [Sunk, Flat]\<rparr>"]
  by (simp add: size_of_def)

section \<open>Parsing\<close>

lemma String_split_empty: "String_split [] sep = [] \<or> String_split [] sep = [[]]"
  by (cases sep) (auto simp: String_split_def)

lemma withHeaders_short: "table = [] \<or> (\<exists>row. table = [row]) \<Longrightarrow> withHeaders table = []"
  by auto

text \<open>
  C8. With the default options the empty string is split into one empty row, the table
  \<open>[[""]]\<close>; that row is the header row and no data row is left, so \<open>parse\<close> returns the
  empty sequence of records. This holds in both versions of the class, and the result is
  the empty sequence for every options object whose \<open>headers\<close> is true.
\<close>

theorem C8_parse_empty:
  "makeTable_Task1 [] DEFAULT_OPTIONS_Task1 = [[[]]] \<and>
   CSV_parse_Task1 (new_CSV (Some []) None) [DEFAULT_OPTIONS_Task1] = Records [] \<and>
   makeTable [] DEFAULT_OPTIONS = [[[]]] \<and>
   CSV_parse (new_CSV (Some []) None) [DEFAULT_OPTIONS] = Records [] \<and>
   (truthy (opts ''headers'') \<longrightarrow> parse_Task1 [] opts = Records [] \<and> parse [] opts = Records [])"
proof -
  have t1: "makeTable_Task1 [] DEFAULT_OPTIONS_Task1 = [[[]]]"
    by (simp add: makeTable_Task1_def DEFAULT_OPTIONS_Task1_def String_split_def)
  have t2: "makeTable [] DEFAULT_OPTIONS = [[[]]]"
    by (simp add: makeTable_def DEFAULT_OPTIONS_def String_split_def)
  have p1: "CSV_parse_Task1 (new_CSV (Some []) None) [DEFAULT_OPTIONS_Task1] = Records []"
    using t1 by (simp add: CSV_parse_Task1_def new_CSV_def parse_Task1_def)
      (simp add: DEFAULT_OPTIONS_Task1_def)
  have p2: "CSV_parse (new_CSV (Some []) None) [DEFAULT_OPTIONS] = Records []"
    using t2 by (simp add: CSV_parse_def new_CSV_def parse_def) (simp add: DEFAULT_OPTIONS_def)
  have g: "parse_Task1 [] opts = Records [] \<and> parse [] opts = Records []"
    if "truthy (opts ''headers'')"
  proof -
    have "withHeaders (makeTable_Task1 [] opts) = []"
      using String_split_empty [of "separator_of (opts ''eol'')"]
      by (intro withHeaders_short) (auto simp: makeTable_Task1_def)
    moreover have "withHeaders (makeTable [] opts) = []"
      using String_split_empty [of "separator_of (opts ''eol'')"]
      by (intro withHeaders_short) (auto simp: makeTable_def)
    ultimately show ?thesis
      using that by (simp add: parse_Task1_def parse_def)
  qed
  from t1 t2 p1 p2 g show ?thesis by blast
qed

theorem C8_parse_empty_witness:
  "truthy (DEFAULT_OPTIONS_Task1 ''headers'') \<and>
   parse_Task1 [] DEFAULT_OPTIONS_Task1 = Records [] \<and>
   makeTable_Task1 [] DEFAULT_OPTIONS_Task1 = [[[]]]"
proof -
  have h: "truthy (DEFAULT_OPTIONS_Task1 ''headers'')"
    by (simp add: DEFAULT_OPTIONS_Task1_def)
  show ?thesis
    using h C8_parse_empty [of DEFAULT_OPTIONS_Task1] by simp
qed

section \<open>Field records\<close>

lemma Object_fromEntries_fold:
  "foldl (\<lambda>m (k, v). m(k \<mapsto> v)) m0 es = m0 ++ map_of (rev es)"
proof (induction es arbitrary: m0)
  case Nil
  show ?case by simp
next
  case (Cons e es)
  obtain k v where e: "e = (k, v)"
    by (cases e)
  have "foldl (\<lambda>m (k, v). m(k \<mapsto> v)) m0 (e # es) =
      foldl (\<lambda>m (k, v). m(k \<mapsto> v)) (m0(k \<mapsto> v)) es"
    by (simp only: e foldl_Cons prod.case)
  also have "\<dots> = m0(k \<mapsto> v) ++ map_of (rev es)"
    by (rule Cons.IH)
  also have "\<dots> = m0 ++ map_of (rev (e # es))"
    by (simp add: e)
  finally show ?case .
qed

lemma Object_fromEntries_map_of: "Object_fromEntries es = map_of (rev es)"
  by (simp add: Object_fromEntries_def Object_fromEntries_fold)

lemma map_of_rev_last:
  assumes "i < length es" and "\<forall>j. i < j \<and> j < length es \<longrightarrow> fst (es ! j) \<noteq> fst (es ! i)"
  shows "map_of (rev es) (fst (es ! i)) = Some (snd (es ! i))"
  using assms
proof (induction es arbitrary: i)
  case Nil
  then show ?case by simp
next
  case (Cons e es)
  show ?case
  proof (cases i)
    case 0
    have "fst e \<notin> fst ` set es"
    proof
      assume "fst e \<in> fst ` set es"
      then obtain j where "j < length es" "fst (es ! j) = fst e"
        by (auto simp: in_set_conv_nth)
      with Cons.prems(2) [rule_format, of "Suc j"] 0 show False
        by simp
    qed
    then have "map_of (rev es) (fst e) = None"
      by (simp add: map_of_eq_None_iff)
    with 0 show ?thesis
      by (cases e) (simp add: map_add_def)
  next
    case (Suc i')
    have "map_of (rev es) (fst (es ! i')) = Some (snd (es ! i'))"
    proof (rule Cons.IH)
      show "i' < length es"
        using Cons.prems(1) Suc by simp
      show "\<forall>j. i' < j \<and> j < length es \<longrightarrow> fst (es ! j) \<noteq> fst (es ! i')"
        using Cons.prems(2) Suc by (auto dest: spec [of _ "Suc j" for j])
    qed
    with Suc show ?thesis
      by (simp add: map_add_def)
  qed
qed

lemma entries_nth: "i < length headers \<Longrightarrow> entries headers row ! i = (headers ! i, row_at row i)"
  by (simp add: entries_def)

lemma length_entries: "length (entries headers row) = length headers"
  by (simp add: entries_def)

lemma map_fst_entries: "map fst (entries headers row) = headers"
  by (rule nth_equalityI) (simp_all add: length_entries entries_nth)

lemma createRecord_map_of: "createRecord headers row = map_of (rev (entries headers row))"
  by (simp add: createRecord_def Object_fromEntries_map_of)

lemma dom_createRecord: "dom (createRecord headers row) = set headers"
proof -
  have "dom (createRecord headers row) = fst ` set (entries headers row)"
    by (simp add: createRecord_map_of dom_map_of_conv_image_fst)
  also have "\<dots> = set (map fst (entries headers row))"
    by simp
  finally show ?thesis
    by (simp only: map_fst_entries)
qed

lemma createRecord_at:
  assumes "i < length headers"
    and "\<forall>j. i < j \<and> j < length headers \<longrightarrow> headers ! j \<noteq> headers ! i"
  shows "createRecord headers row (headers ! i) = Some (row_at row i)"
proof -
  have "map_of (rev (entries headers row)) (fst (entries headers row ! i)) =
      Some (snd (entries headers row ! i))"
    using assms by (intro map_of_rev_last) (auto simp: length_entries entries_nth)
  then show ?thesis
    using assms(1) by (simp add: createRecord_map_of entries_nth)
qed

lemma createRecord_take:
  "createRecord headers (take (length headers) row) = createRecord headers row"
proof -
  have "entries headers (take (length headers) row) = entries headers row"
    by (rule nth_equalityI) (simp_all add: length_entries entries_nth row_at_def)
  then show ?thesis
    by (simp add: createRecord_map_of)
qed

text \<open>
  C7. The record of a header row and a data row has exactly the headers as its keys, and
  the header at position \<open>i\<close> (the last one of that name) maps to the field at position
  \<open>i\<close> of the row: to \<open>undefined\<close> when the row has no such field, so the trailing headers of
  a short row map to \<open>undefined\<close>. The fields of the row past the number of headers do not
  matter: they are dropped. \<open>createRecord\<close> has no error result, and with \<open>headers\<close> true
  \<open>parse\<close> returns the records of the data rows against the first row, in both versions.
\<close>

theorem C7_createRecord:
  "dom (createRecord headers row) = set headers \<and>
   (\<forall>i < length headers.
      (\<forall>j. i < j \<and> j < length headers \<longrightarrow> headers ! j \<noteq> headers ! i) \<longrightarrow>
      createRecord headers row (headers ! i) =
        Some (if i < length row then Str (row ! i) else Undefined)) \<and>
   createRecord headers (take (length headers) row) = createRecord headers row \<and>
   (\<forall>text opts body.
      truthy (opts ''headers'') \<and> makeTable text opts = headers # body \<longrightarrow>
      parse text opts = Records (map (createRecord headers) body)) \<and>
   (\<forall>text opts body.
      truthy (opts ''headers'') \<and> makeTable_Task1 text opts = headers # body \<longrightarrow>
      parse_Task1 text opts = Records (map (createRecord headers) body))"
proof (intro conjI allI impI)
  show "dom (createRecord headers row) = set headers"
    by (rule dom_createRecord)
  show "createRecord headers (take (length headers) row) = createRecord headers row"
    by (rule createRecord_take)
next
  fix i
  assume "i < length headers"
    and "\<forall>j. i < j \<and> j < length headers \<longrightarrow> headers ! j \<noteq> headers ! i"
  then have "createRecord headers row (headers ! i) = Some (row_at row i)"
    by (rule createRecord_at)
  then show "createRecord headers row (headers ! i) =
      Some (if i < length row then Str (row ! i) else Undefined)"
    by (simp add: row_at_def)
qed (simp_all add: parse_def parse_Task1_def)

theorem C7_createRecord_witness:
  "createRecord Names [''Alice'', ''30''] ''name'' = Some (Str ''Alice'') \<and>
   createRecord Names [''Alice'', ''30''] ''age'' = Some (Str ''30'') \<and>
   createRecord Names [''Alice'', ''30''] ''city'' = Some Undefined \<and>
   createRecord Names [''Bob'', ''25'', ''Paris'', ''extra''] = createRecord Names [''Bob'', ''25'', ''Paris''] \<and>
   dom (createRecord Names [''Bob'', ''25'', ''Paris'', ''extra'']) = {''name'', ''age'', ''city''}"
proof -
  note T = C7_createRecord [of Names "[''Alice'', ''30'']"]
  note U = C7_createRecord [of Names "[''Bob'', ''25'', ''Paris'', ''extra'']"]
  have l: "length Names = 3"
    by (simp add: Names_def)
  have d: "\<forall>j. i < j \<and> j < length Names \<longrightarrow> Names ! j \<noteq> Names ! i" if "i < 3" for i
  proof (intro allI impI)
    fix j
    assume "i < j \<and> j < length Names"
    then have "(i, j) \<in> {(0, 1), (0, 2), (1, 2)}"
      using l by auto
    then show "Names ! j \<noteq> Names ! i"
      by (auto simp: Names_def)
  qed
  have a: "createRecord Names [''Alice'', ''30''] (Names ! 0) = Some (Str ''Alice'')"
    using T d [of 0] l by simp
  have b: "createRecord Names [''Alice'', ''30''] (Names ! 1) = Some (Str ''30'')"
    using T d [of 1] l by simp
  have c: "createRecord Names [''Alice'', ''30''] (Names ! 2) = Some Undefined"
    using T d [of 2] l by simp
  have e: "createRecord Names [''Bob'', ''25'', ''Paris'', ''extra''] = createRecord Names [''Bob'', ''25'', ''Paris'']"
    using U l by simp
  have f: "dom (createRecord Names [''Bob'', ''25'', ''Paris'', ''extra'']) = {''name'', ''age'', ''city''}"
    using U by (simp add: Names_def)
  from a b c e f show ?thesis
    by (simp add: Names_def)
qed

section \<open>Mapping a record to a region\<close>
















section \<open>Rendering\<close>

lemma map_lines_Inr:
  "map_lines f xs = Inr ys \<Longrightarrow> length ys = length xs \<and> (\<forall>i < length xs. f (xs ! i) = Inr (ys ! i))"
proof (induction xs arbitrary: ys)
  case Nil
  then show ?case by simp
next
  case (Cons x xs)
  from Cons.prems obtain y ys' where y: "f x = Inr y" and ys': "map_lines f xs = Inr ys'"
    and ys: "ys = y # ys'"
    by (auto split: sum.splits)
  from Cons.IH [OF ys'] y ys show ?case
    by (auto simp: nth_Cons split: nat.splits)
qed

lemma map_lines_total:
  "(\<forall>x\<in>set xs. \<exists>y. f x = Inr y) \<Longrightarrow> \<exists>ys. map_lines f xs = Inr ys"
  by (induction xs) auto

lemma composeLine_Inr:
  assumes "composeLine long c r opts = Inr l"
  shows "\<exists>cy co. city r = Str cy \<and> country r = Str co \<and>
     l = padEnd 18 cy @ padStart 10 (Number_toString long (population r)) @
         padStart 8 (Number_toString long (area r)) @ padStart 8 (Number_toString long (density r)) @
         padStart 18 co @
         (if relativeDensity opts
          then padStart 6 (Number_toString long (densityRelativeTo r (maxDensity c))) else [])"
  using assms
  by (auto simp: composeLine_def makeDefaultFragments_def makeRelativeDensityFragment_def
      split: jsval.splits if_splits)

lemma composeLine_total:
  "city r \<noteq> Undefined \<Longrightarrow> country r \<noteq> Undefined \<Longrightarrow> \<exists>l. composeLine long c r opts = Inr l"
  by (auto simp: composeLine_def makeDefaultFragments_def split: jsval.splits)

text \<open>
  C3. When \<open>print\<close> returns, it has made exactly one write: the lines of the regions, in
  the order of the collection, joined by the line separator. The line of a region is the
  concatenation of its city padded at the end to the width 18, its population, area and
  density padded at the start to the widths 10, 8 and 8, its country padded at the start
  to the width 18 and, when \<open>relativeDensity\<close> is set, its relative density against
  \<open>maxDensity()\<close> of the collection as it is at that time, padded at the start to the
  width 6. A number is printed by \<open>toString\<close>: an integer below \<open>2^53\<close> in magnitude
  as its decimal numeral, a larger one as the engine prints it. Padding adds spaces up
  to the width and never cuts. \<open>print\<close> returns whenever
  every city and country is a string.
\<close>

theorem C3_print:
  "(View_print long c opts out = Inr out' \<longrightarrow>
      (\<exists>lines. out' = out @ [join [CHR 0x0A] lines] \<and> length lines = length (regions c) \<and>
         (\<forall>i < length (regions c). \<exists>cy co.
            city (regions c ! i) = Str cy \<and> country (regions c ! i) = Str co \<and>
            lines ! i =
              padEnd 18 cy @
              padStart 10 (Number_toString long (population (regions c ! i))) @
              padStart 8 (Number_toString long (area (regions c ! i))) @
              padStart 8 (Number_toString long (density (regions c ! i))) @
              padStart 18 co @
              (if relativeDensity opts
               then padStart 6 (Number_toString long (densityRelativeTo (regions c ! i) (maxDensity c)))
               else [])))) \<and>
   ((\<forall>r\<in>set (regions c). city r \<noteq> Undefined \<and> country r \<noteq> Undefined) \<longrightarrow>
      (\<exists>res. View_print long c opts out = Inr res)) \<and>
   (\<forall>n. \<bar>n\<bar> < 2 ^ 53 \<longrightarrow>
      Number_toString long (Fin n) =
        (if n < 0 then CHR ''-'' # digits10 (nat (- n)) else digits10 (nat n))) \<and>
   (\<forall>n s. padEnd n s = s @ replicate (n - length s) CHR '' '' \<and>
          padStart n s = replicate (n - length s) CHR '' '' @ s \<and>
          length (padEnd n s) = max n (length s) \<and> length (padStart n s) = max n (length s))"
proof (intro conjI impI allI)
  assume p: "View_print long c opts out = Inr out'"
  then obtain lines where l: "map_lines (\<lambda>r. composeLine long c r opts) (regions c) = Inr lines"
    and o: "out' = out @ [join [CHR 0x0A] lines]"
    by (auto simp: View_print_def split: sum.splits)
  from map_lines_Inr [OF l] have n: "length lines = length (regions c)"
    and e: "\<forall>i < length (regions c). composeLine long c (regions c ! i) opts = Inr (lines ! i)"
    by auto
  show "\<exists>lines. out' = out @ [join [CHR 0x0A] lines] \<and> length lines = length (regions c) \<and>
         (\<forall>i < length (regions c). \<exists>cy co.
            city (regions c ! i) = Str cy \<and> country (regions c ! i) = Str co \<and>
            lines ! i =
              padEnd 18 cy @
              padStart 10 (Number_toString long (population (regions c ! i))) @
              padStart 8 (Number_toString long (area (regions c ! i))) @
              padStart 8 (Number_toString long (density (regions c ! i))) @
              padStart 18 co @
              (if relativeDensity opts
               then padStart 6 (Number_toString long (densityRelativeTo (regions c ! i) (maxDensity c)))
               else []))"
  proof (intro exI [of _ lines] conjI allI impI)
    fix i
    assume "i < length (regions c)"
    with e have "composeLine long c (regions c ! i) opts = Inr (lines ! i)"
      by simp
    then show "\<exists>cy co.
            city (regions c ! i) = Str cy \<and> country (regions c ! i) = Str co \<and>
            lines ! i =
              padEnd 18 cy @
              padStart 10 (Number_toString long (population (regions c ! i))) @
              padStart 8 (Number_toString long (area (regions c ! i))) @
              padStart 8 (Number_toString long (density (regions c ! i))) @
              padStart 18 co @
              (if relativeDensity opts
               then padStart 6 (Number_toString long (densityRelativeTo (regions c ! i) (maxDensity c)))
               else [])"
      by (rule composeLine_Inr)
  qed (use o n in simp_all)
next
  assume "\<forall>r\<in>set (regions c). city r \<noteq> Undefined \<and> country r \<noteq> Undefined"
  then have "\<exists>ys. map_lines (\<lambda>r. composeLine long c r opts) (regions c) = Inr ys"
    by (intro map_lines_total) (simp add: composeLine_total)
  then show "\<exists>res. View_print long c opts out = Inr res"
    by (auto simp: View_print_def)
qed (simp_all add: padEnd_def padStart_def max_def)

theorem C3_print_witness:
  "View_print No_long \<lparr>regions = [CityE, CityF]\<rparr> VIEW_DEFAULT_OPTIONS [] = Inr [Rendered] \<and>
   (\<exists>lines. [Rendered] = [] @ [join [CHR 0x0A] lines] \<and> length lines = 2 \<and>
      lines ! 1 =
        padEnd 18 ''CityF'' @ padStart 10 ''2000'' @ padStart 8 ''50'' @ padStart 8 ''40'' @
        padStart 18 ''CountryF'' @ padStart 6 ''100'')"
proof -
  let ?c = "\<lparr>regions = [CityE, CityF]\<rparr>"
  have m: "maxDensity ?c = Fin 40"
    by (simp add: maxDensity_def Math_max_def js_max2_def CityE_def CityF_def)
  have k: "densityRelativeTo CityE (Fin 40) = Fin 25" "densityRelativeTo CityF (Fin 40) = Fin 100"
    using relative_exact [of CityE 10 25 40] relative_exact [of CityF 40 100 40]
    by (simp_all add: CityE_def CityF_def)
  have n: "Number_toString No_long (Fin 1000) = ''1000''" "Number_toString No_long (Fin 100) = ''100''"
    "Number_toString No_long (Fin 10) = ''10''" "Number_toString No_long (Fin 25) = ''25''"
    "Number_toString No_long (Fin 2000) = ''2000''" "Number_toString No_long (Fin 50) = ''50''"
    "Number_toString No_long (Fin 40) = ''40''"
    by (simp_all add: digits10.simps digit_char_def)
  have fe: "city CityE = Str ''CityE''" "population CityE = Fin 1000" "area CityE = Fin 100"
    "density CityE = Fin 10" "country CityE = Str ''CountryE''"
    by (simp_all add: CityE_def)
  have ff: "city CityF = Str ''CityF''" "population CityF = Fin 2000" "area CityF = Fin 50"
    "density CityF = Fin 40" "country CityF = Str ''CountryF''"
    by (simp_all add: CityF_def)
  have pe: "padEnd 18 ''CityE'' @ padStart 10 ''1000'' @ padStart 8 ''100'' @ padStart 8 ''10'' @
      padStart 18 ''CountryE'' @ padStart 6 ''25'' =
      ''CityE                   1000     100      10          CountryE    25''"
    by (simp add: padEnd_def padStart_def eval_nat_numeral)
  have pf: "padEnd 18 ''CityF'' @ padStart 10 ''2000'' @ padStart 8 ''50'' @ padStart 8 ''40'' @
      padStart 18 ''CountryF'' @ padStart 6 ''100'' =
      ''CityF                   2000      50      40          CountryF   100''"
    by (simp add: padEnd_def padStart_def eval_nat_numeral)
  have "composeLine No_long ?c CityE VIEW_DEFAULT_OPTIONS =
      Inr (padEnd 18 ''CityE'' @ padStart 10 ''1000'' @ padStart 8 ''100'' @ padStart 8 ''10'' @
      padStart 18 ''CountryE'' @ padStart 6 ''25'')"
    by (simp add: composeLine_def makeDefaultFragments_def makeRelativeDensityFragment_def m
        fe k n VIEW_DEFAULT_OPTIONS_def del: Number_toString.simps)
  then have e: "composeLine No_long ?c CityE VIEW_DEFAULT_OPTIONS =
      Inr ''CityE                   1000     100      10          CountryE    25''"
    by (simp only: pe)
  have "composeLine No_long ?c CityF VIEW_DEFAULT_OPTIONS =
      Inr (padEnd 18 ''CityF'' @ padStart 10 ''2000'' @ padStart 8 ''50'' @ padStart 8 ''40'' @
      padStart 18 ''CountryF'' @ padStart 6 ''100'')"
    by (simp add: composeLine_def makeDefaultFragments_def makeRelativeDensityFragment_def m
        ff k n VIEW_DEFAULT_OPTIONS_def del: Number_toString.simps)
  then have f: "composeLine No_long ?c CityF VIEW_DEFAULT_OPTIONS =
      Inr ''CityF                   2000      50      40          CountryF   100''"
    by (simp only: pf)
  have v: "View_print No_long ?c VIEW_DEFAULT_OPTIONS [] = Inr [Rendered]"
    by (simp add: View_print_def e f Rendered_def)
  note T = C3_print [of No_long ?c VIEW_DEFAULT_OPTIONS "[]" "[Rendered]", THEN conjunct1, THEN mp, OF v]
  then obtain lines where l: "[Rendered] = [] @ [join [CHR 0x0A] lines]"
    "length lines = length (regions ?c)"
    and a: "\<forall>i < length (regions ?c). \<exists>cy co.
            city (regions ?c ! i) = Str cy \<and>
            country (regions ?c ! i) = Str co \<and>
            lines ! i =
              padEnd 18 cy @
              padStart 10 (Number_toString No_long (population (regions ?c ! i))) @
              padStart 8 (Number_toString No_long (area (regions ?c ! i))) @
              padStart 8 (Number_toString No_long (density (regions ?c ! i))) @
              padStart 18 co @
              (if relativeDensity VIEW_DEFAULT_OPTIONS
               then padStart 6 (Number_toString No_long (densityRelativeTo (regions ?c ! i) (maxDensity ?c)))
               else [])"
    by blast
  from a [rule_format, of 1] have "lines ! 1 =
        padEnd 18 ''CityF'' @ padStart 10 ''2000'' @ padStart 8 ''50'' @ padStart 8 ''40'' @
        padStart 18 ''CountryF'' @ padStart 6 ''100''"
    using n m k by (auto simp: ff VIEW_DEFAULT_OPTIONS_def simp del: Number_toString.simps)
  with l v show ?thesis
    by auto
qed

section \<open>The maximum density\<close>

lemma js_lt_irrefl: "\<not> js_lt a a"
  by (cases a) auto

lemma js_lt_asym: "js_lt a b \<Longrightarrow> \<not> js_lt b a"
  by (cases a; cases b) auto

lemma js_lt_trans: "js_lt a b \<Longrightarrow> js_lt b c \<Longrightarrow> js_lt a c"
  by (cases a; cases b; cases c) auto

text \<open>Not being smaller is transitive through a number that is not \<open>NaN\<close>.\<close>

lemma js_not_lt_trans: "b \<noteq> NaN \<Longrightarrow> \<not> js_lt a b \<Longrightarrow> \<not> js_lt b c \<Longrightarrow> \<not> js_lt a c"
  by (cases a; cases b; cases c) auto

lemma js_max2_NaN: "js_max2 NaN b = NaN" "js_max2 a NaN = NaN"
  by (simp_all add: js_max2_def)

lemma js_max2_NInf: "js_max2 NInf b = b"
  by (cases b) (auto simp: js_max2_def)

lemma js_max2_cases: "js_max2 a b = NaN \<or> js_max2 a b = a \<or> js_max2 a b = b"
  by (auto simp: js_max2_def)

lemma js_max2_NaN_iff: "js_max2 a b = NaN \<longleftrightarrow> a = NaN \<or> b = NaN"
  by (auto simp: js_max2_def)

lemma js_max2_upper: "\<not> js_lt (js_max2 a b) a" "\<not> js_lt (js_max2 a b) b"
  by (cases a; cases b; auto simp: js_max2_def)+

lemma foldl_js_max2_NaN: "foldl js_max2 NaN xs = NaN"
  by (induction xs) (simp_all add: js_max2_NaN)

lemma foldl_js_max2_mem: "foldl js_max2 a xs \<in> insert a (set xs) \<or> foldl js_max2 a xs = NaN"
proof (induction xs arbitrary: a)
  case Nil
  show ?case by simp
next
  case (Cons x xs)
  from Cons.IH [of "js_max2 a x"] js_max2_cases [of a x] show ?case
    by (auto simp: foldl_js_max2_NaN)
qed

lemma foldl_js_max2_NaN_iff: "foldl js_max2 a xs = NaN \<longleftrightarrow> a = NaN \<or> NaN \<in> set xs"
  by (induction xs arbitrary: a) (auto simp: js_max2_NaN_iff)

lemma foldl_js_max2_upper:
  "\<not> js_lt (foldl js_max2 a xs) a \<and> (\<forall>x\<in>set xs. \<not> js_lt (foldl js_max2 a xs) x)"
proof (induction xs arbitrary: a)
  case Nil
  show ?case by (simp add: js_lt_irrefl)
next
  case (Cons x xs)
  let ?m = "js_max2 a x" and ?r = "foldl js_max2 (js_max2 a x) xs"
  from Cons.IH [of ?m] have r: "\<not> js_lt ?r ?m" and rest: "\<forall>y\<in>set xs. \<not> js_lt ?r y"
    by auto
  show ?case
  proof (cases "?m = NaN")
    case True
    then have "?r = NaN"
      by (simp add: foldl_js_max2_NaN)
    then show ?thesis
      by simp
  next
    case False
    from js_not_lt_trans [OF False r js_max2_upper(1)] js_not_lt_trans [OF False r js_max2_upper(2)]
    show ?thesis
      using rest by simp
  qed
qed

lemma Math_max_Nil: "Math_max [] = NInf"
  by (simp add: Math_max_def)

lemma Math_max_mem: "xs \<noteq> [] \<Longrightarrow> Math_max xs \<in> set xs"
proof -
  assume "xs \<noteq> []"
  then obtain x xs' where xs: "xs = x # xs'"
    by (cases xs) auto
  have "foldl js_max2 x xs' \<in> insert x (set xs') \<or> foldl js_max2 x xs' = NaN"
    by (rule foldl_js_max2_mem)
  moreover have "foldl js_max2 x xs' = NaN \<Longrightarrow> NaN \<in> insert x (set xs')"
    by (auto simp: foldl_js_max2_NaN_iff)
  ultimately show ?thesis
    by (auto simp: Math_max_def xs js_max2_NInf)
qed

lemma Math_max_upper: "x \<in> set xs \<Longrightarrow> \<not> js_lt (Math_max xs) x"
  using foldl_js_max2_upper [of NInf xs] by (simp add: Math_max_def)

lemma Math_max_NaN_iff: "Math_max xs = NaN \<longleftrightarrow> NaN \<in> set xs"
  by (simp add: Math_max_def foldl_js_max2_NaN_iff)

text \<open>
  C6. After every sequence of mutations \<open>maxDensity\<close> is computed from the regions the
  collection holds then: on an empty collection it is negative infinity; otherwise it is
  the density of one of the regions and no region has a greater density, so it is the
  maximum (when a density is \<open>NaN\<close>, which no number is greater than, it is that \<open>NaN\<close>).
  After a further \<open>pop\<close> it is the maximum over the regions that remain.
\<close>

theorem C6_maxDensity:
  "(regions (mutations c ms) = [] \<longrightarrow> maxDensity (mutations c ms) = NInf) \<and>
   (regions (mutations c ms) \<noteq> [] \<longrightarrow>
      maxDensity (mutations c ms) \<in> density ` set (regions (mutations c ms))) \<and>
   (\<forall>r\<in>set (regions (mutations c ms)). \<not> js_lt (maxDensity (mutations c ms)) (density r)) \<and>
   ((\<forall>r\<in>set (regions (mutations c ms)). density r \<noteq> NaN) \<longrightarrow>
      maxDensity (mutations c ms) \<noteq> NaN) \<and>
   maxDensity (mutations c (ms @ [PopLast])) =
     Math_max (map density (butlast (regions (mutations c ms))))"
proof -
  define c' where "c' = mutations c ms"
  have 1: "regions c' = [] \<longrightarrow> maxDensity c' = NInf"
    by (simp add: maxDensity_def Math_max_Nil)
  have 2: "regions c' \<noteq> [] \<longrightarrow> maxDensity c' \<in> density ` set (regions c')"
    using Math_max_mem [of "map density (regions c')"] by (simp add: maxDensity_def)
  have 3: "\<forall>r\<in>set (regions c'). \<not> js_lt (maxDensity c') (density r)"
    by (simp add: maxDensity_def Math_max_upper)
  have 4: "(\<forall>r\<in>set (regions c'). density r \<noteq> NaN) \<longrightarrow> maxDensity c' \<noteq> NaN"
    by (auto simp: maxDensity_def Math_max_NaN_iff)
  have 5: "maxDensity (mutations c (ms @ [PopLast])) = Math_max (map density (butlast (regions c')))"
    by (simp add: mutations_def maxDensity_def pop_def c'_def)
  from 1 2 3 4 5 show ?thesis
    unfolding c'_def by blast
qed


theorem C6_maxDensity_witness:
  "regions (mutations \<lparr>regions = [CityA, CityC, CityB]\<rparr> [PopLast]) = [CityA, CityC] \<and>
   maxDensity (mutations \<lparr>regions = [CityA, CityC, CityB]\<rparr> []) = Fin 30 \<and>
   maxDensity (mutations \<lparr>regions = [CityA, CityC, CityB]\<rparr> [PopLast]) = Fin 25 \<and>
   maxDensity (mutations \<lparr>regions = []\<rparr> [PopLast, SortByRelativeDensity]) = NInf"
proof -
  let ?c = "\<lparr>regions = [CityA, CityC, CityB]\<rparr>"
  have e: "regions (mutations ?c [PopLast]) = [CityA, CityC]"
    "regions (mutations ?c []) = [CityA, CityC, CityB]"
    "regions (mutations \<lparr>regions = []\<rparr> [PopLast, SortByRelativeDensity]) = []"
    by code_simp+
  have d: "density CityA = Fin 20" "density CityB = Fin 30" "density CityC = Fin 25"
    by (simp_all add: CityA_def CityB_def CityC_def)
  from C6_maxDensity [of ?c "[PopLast]"] e(1) d
  have "maxDensity (mutations ?c [PopLast]) \<in> {Fin 20, Fin 25}"
    and "\<not> js_lt (maxDensity (mutations ?c [PopLast])) (Fin 25)"
    by auto
  then have 1: "maxDensity (mutations ?c [PopLast]) = Fin 25"
    by auto
  from C6_maxDensity [of ?c "[]"] e(2) d
  have "maxDensity (mutations ?c []) \<in> {Fin 20, Fin 25, Fin 30}"
    and "\<not> js_lt (maxDensity (mutations ?c [])) (Fin 30)"
    by auto
  then have 2: "maxDensity (mutations ?c []) = Fin 30"
    by auto
  from C6_maxDensity [of "\<lparr>regions = []\<rparr>" "[PopLast, SortByRelativeDensity]"] e(3)
  have 3: "maxDensity (mutations \<lparr>regions = []\<rparr> [PopLast, SortByRelativeDensity]) = NInf"
    by simp
  from e(1) 1 2 3 show ?thesis
    by simp
qed

section \<open>Sorting by relative density\<close>

lemma comparator_positive:
  "js_lt (Fin 0) (js_sub b a) \<longleftrightarrow> js_lt a b"
  by (cases a; cases b) (auto simp: round_int_sign)

lemma set_insert_by: "set (insert_by cmp x ys) = insert x (set ys)"
  by (induction ys) auto

lemma mset_insert_by: "mset (insert_by cmp x ys) = add_mset x (mset ys)"
  by (induction ys) auto

lemma mset_Array_sort: "mset (Array_sort cmp xs) = mset xs"
  by (induction xs) (simp_all add: Array_sort_def mset_insert_by)

lemma set_Array_sort: "set (Array_sort cmp xs) = set xs"
  by (induction xs) (simp_all add: Array_sort_def set_insert_by)

lemma Array_sort_Cons: "Array_sort cmp (x # xs) = insert_by cmp x (Array_sort cmp xs)"
  by (simp add: Array_sort_def)

lemma consistent_on_subset: "consistent_on cmp S \<Longrightarrow> T \<subseteq> S \<Longrightarrow> consistent_on cmp T"
  unfolding consistent_on_def by (meson subsetD)

lemma sorted_insert_by:
  assumes "consistent_on cmp (insert x (set ys))"
    and "sorted_wrt (\<lambda>a b. \<not> js_lt (Fin 0) (cmp a b)) ys"
  shows "sorted_wrt (\<lambda>a b. \<not> js_lt (Fin 0) (cmp a b)) (insert_by cmp x ys)"
  using assms
proof (induction ys)
  case Nil
  show ?case by simp
next
  case (Cons y ys)
  from Cons.prems(1) have sub: "consistent_on cmp (insert x (set ys))"
    by (rule consistent_on_subset) auto
  from Cons.prems(2) have tail: "sorted_wrt (\<lambda>a b. \<not> js_lt (Fin 0) (cmp a b)) ys"
    and head: "\<forall>z\<in>set ys. \<not> js_lt (Fin 0) (cmp y z)"
    by simp_all
  show ?case
  proof (cases "js_lt (Fin 0) (cmp x y)")
    case True
    have "\<not> js_lt (Fin 0) (cmp y x)"
      using Cons.prems(1) True unfolding consistent_on_def by simp
    with True head Cons.IH [OF sub tail] show ?thesis
      by (simp add: set_insert_by)
  next
    case False
    have "\<not> js_lt (Fin 0) (cmp x z)" if "z \<in> set ys" for z
    proof -
      have "\<not> js_lt (Fin 0) (cmp y z)"
        using head that by simp
      with False Cons.prems(1) that show ?thesis
        unfolding consistent_on_def by (meson insertI1 insertI2 list.set_intros)
    qed
    with False Cons.prems(2) show ?thesis
      by simp
  qed
qed

lemma sorted_Array_sort:
  assumes "consistent_on cmp (set xs)"
  shows "sorted_wrt (\<lambda>a b. \<not> js_lt (Fin 0) (cmp a b)) (Array_sort cmp xs)"
  using assms
proof (induction xs)
  case Nil
  show ?case by (simp add: Array_sort_def)
next
  case (Cons x xs)
  from Cons.prems have "consistent_on cmp (set xs)"
    by (rule consistent_on_subset) auto
  then have "sorted_wrt (\<lambda>a b. \<not> js_lt (Fin 0) (cmp a b)) (Array_sort cmp xs)"
    by (rule Cons.IH)
  moreover have "consistent_on cmp (insert x (set (Array_sort cmp xs)))"
    using Cons.prems by (simp add: set_Array_sort)
  ultimately show ?case
    unfolding Array_sort_Cons by (intro sorted_insert_by)
qed

lemma filter_insert_by_out: "\<not> P x \<Longrightarrow> filter P (insert_by cmp x ys) = filter P ys"
  by (induction ys) auto

lemma filter_insert_by_in:
  "P x \<Longrightarrow> \<forall>y\<in>set ys. P y \<longrightarrow> \<not> js_lt (Fin 0) (cmp x y) \<Longrightarrow>
   filter P (insert_by cmp x ys) = x # filter P ys"
  by (induction ys) auto

lemma filter_Array_sort:
  "\<forall>x\<in>set xs. \<forall>y\<in>set xs. P x \<longrightarrow> P y \<longrightarrow> \<not> js_lt (Fin 0) (cmp x y) \<Longrightarrow>
   filter P (Array_sort cmp xs) = filter P xs"
proof (induction xs)
  case Nil
  show ?case by (simp add: Array_sort_def)
next
  case (Cons x xs)
  then have IH: "filter P (Array_sort cmp xs) = filter P xs"
    by simp
  show ?case
  proof (cases "P x")
    case True
    with Cons.prems have "filter P (insert_by cmp x (Array_sort cmp xs)) = x # filter P (Array_sort cmp xs)"
      by (intro filter_insert_by_in) (auto simp: set_Array_sort)
    with True IH show ?thesis
      by (simp add: Array_sort_Cons)
  next
    case False
    then show ?thesis
      by (simp add: Array_sort_Cons filter_insert_by_out IH)
  qed
qed


lemma relative_to_NaN: "densityRelativeTo r NaN = NaN"
  by (simp add: num_defs)

lemma Math_round_zero: "Math_round (Fin 0) = Fin 0"
  using Math_round_of_int [of 0] by simp

text \<open>The product \<open>density * 100\<close>, by the kind of the density.\<close>

lemma times_100_cases:
  obtains "density r = NaN" "js_mul (density r) (Fin 100) = NaN"
  | "is_zero (density r)" "js_mul (density r) (Fin 100) = density r"
  | "js_lt (Fin 0) (density r)" "js_mul (density r) (Fin 100) = PInf"
  | k where "js_lt (Fin 0) (density r)" "js_mul (density r) (Fin 100) = Fin k" "0 < k"
  | "js_lt (density r) (Fin 0)" "js_mul (density r) (Fin 100) = NInf"
  | k where "js_lt (density r) (Fin 0)" "js_mul (density r) (Fin 100) = Fin k" "k < 0"
proof (cases "density r")
  case (Fin n)
  consider "n = 0" | "0 < n" | "n < 0"
    by linarith
  then show ?thesis
  proof cases
    case 1
    with Fin that(2) show ?thesis
      by (simp add: times_100 is_zero_def)
  next
    case 2
    with Fin times_100_pos [OF 2] that(3,4) show ?thesis
      by auto
  next
    case 3
    with Fin times_100_neg [OF 3] that(5,6) show ?thesis
      by auto
  qed
qed (use that in \<open>simp_all add: times_100 is_zero_def\<close>)

lemma relative_to_inf: "is_inf m \<Longrightarrow> densityRelativeTo r m \<in> {NaN, Fin 0, NZero}"
  by (cases r rule: times_100_cases)
    (auto simp: densityRelativeTo_def js_div_def is_zero_def is_inf_def Math_round_zero
      simp del: Math_round.simps(1))

lemma js_lt_zero: "is_zero m \<Longrightarrow> js_lt m d = js_lt (Fin 0) d"
  by (cases d) (auto simp: is_zero_def)

lemma relative_to_zero:
  assumes "is_zero m" and "\<not> js_lt m (density r)"
  shows "densityRelativeTo r m \<in> {NaN, if m = NZero then PInf else NInf}"
proof -
  have "\<not> js_lt (Fin 0) (density r)"
    using assms(2) js_lt_zero [OF assms(1), of "density r"] by blast
  with assms(1) show ?thesis
    by (cases r rule: times_100_cases)
      (auto simp: densityRelativeTo_def js_div_def is_zero_def is_inf_def)
qed

lemma relative_to_finite:
  assumes "m = Fin n" "n \<noteq> 0" "density r \<noteq> NaN" "\<not> js_lt m (density r)"
  shows "densityRelativeTo r m \<noteq> NaN"
proof -
  have "js_div p m \<noteq> NaN" if "p \<noteq> NaN" for p
    using that assms(1,2) by (auto simp: js_div_def is_zero_def is_inf_def to_double_not_NaN)
  moreover have "js_mul (density r) (Fin 100) \<noteq> NaN"
    using assms(3) by (cases r rule: times_100_cases) auto
  ultimately show ?thesis
    by (simp add: densityRelativeTo_def Math_round_not_NaN)
qed

lemma keys_dichotomy:
  assumes m: "m = Math_max (map density rs)"
  shows "(\<forall>r\<in>set rs. densityRelativeTo r m \<noteq> NaN) \<or>
         (\<forall>a\<in>set rs. \<forall>b\<in>set rs. \<not> js_lt (densityRelativeTo a m) (densityRelativeTo b m))"
proof -
  have upper: "\<not> js_lt m (density r)" if "r \<in> set rs" for r
    using that unfolding m by (intro Math_max_upper) simp
  have nan: "density r \<noteq> NaN" if "r \<in> set rs" "m \<noteq> NaN" for r
    using that Math_max_NaN_iff [of "map density rs"] unfolding m by force
  consider "m = NaN" | "is_inf m" | "is_zero m" | n where "m = Fin n" "n \<noteq> 0"
    by (cases m) (auto simp: is_inf_def is_zero_def)
  then show ?thesis
  proof cases
    case 1
    then show ?thesis
      by (simp add: relative_to_NaN)
  next
    case 2
    have "\<not> js_lt (densityRelativeTo a m) (densityRelativeTo b m)" for a b
      using relative_to_inf [OF 2, of a] relative_to_inf [OF 2, of b] by auto
    then show ?thesis
      by simp
  next
    case 3
    have "\<not> js_lt (densityRelativeTo a m) (densityRelativeTo b m)"
      if "a \<in> set rs" "b \<in> set rs" for a b
      using relative_to_zero [OF 3 upper [OF that(1)]] relative_to_zero [OF 3 upper [OF that(2)]]
      by (auto split: if_splits)
    then show ?thesis
      by simp
  next
    case 4
    have "densityRelativeTo r m \<noteq> NaN" if "r \<in> set rs" for r
      using 4 that by (intro relative_to_finite [of m n] nan upper) simp_all
    then show ?thesis
      by simp
  qed
qed

lemma comparator_after:
  "js_lt (Fin 0) (comparator m a b) \<longleftrightarrow> js_lt (densityRelativeTo a m) (densityRelativeTo b m)"
  by (simp add: comparator_def comparator_positive)

lemma comparator_consistent:
  "consistent_on (comparator (Math_max (map density rs))) (set rs)"
proof -
  let ?m = "Math_max (map density rs)"
  let ?key = "\<lambda>r. densityRelativeTo r ?m"
  have "\<not> js_lt (?key a) (?key c)"
    if "a \<in> set rs" "b \<in> set rs" "c \<in> set rs" "\<not> js_lt (?key a) (?key b)" "\<not> js_lt (?key b) (?key c)"
    for a b c
    using keys_dichotomy [OF refl, of rs]
  proof
    assume "\<forall>r\<in>set rs. ?key r \<noteq> NaN"
    with that(2) have "?key b \<noteq> NaN"
      by simp
    then show ?thesis
      using that(4,5) by (rule js_not_lt_trans)
  next
    assume "\<forall>a\<in>set rs. \<forall>b\<in>set rs. \<not> js_lt (?key a) (?key b)"
    with that(1,3) show ?thesis
      by simp
  qed
  then show ?thesis
    unfolding consistent_on_def comparator_after by (blast dest: js_lt_asym)
qed

text \<open>
  Large densities: the keys are those of the doubles, 65, 65 and 100 (the exact quotient
  of the first is below 64.5), and the two regions that tie keep their order.
\<close>

lemma Metros_keys:
  "densityRelativeTo MetroA (Fin 70368744177769) = Fin 65"
  "densityRelativeTo MetroB (Fin 70368744177769) = Fin 65"
  "densityRelativeTo MetroM (Fin 70368744177769) = Fin 100"
proof -
  have "js_mul (Fin 45387839994661) (Fin 100) = Fin 4538783999466100"
    by (simp add: js_mul_def is_zero_def is_inf_def round_int_exact)
  moreover have "js_div (Fin 4538783999466100) (Fin 70368744177769) =
      Fin (of_int 4538783999459328 / 2 ^ (52 - 6))"
    using to_double_quotient [of 70368744177769 6 4538783999466100 4538783999459328]
    by (simp add: js_div_def is_zero_def is_inf_def)
  moreover have "Math_round (Fin (of_int 4538783999459328 / 2 ^ (52 - 6))) = Fin 65"
    by (simp only: Math_round_dyadic) simp
  ultimately show "densityRelativeTo MetroA (Fin 70368744177769) = Fin 65"
    by (simp only: densityRelativeTo_def MetroA_def Region.simps)
  have "js_mul (Fin 45739683715550) (Fin 100) = Fin 4573968371555000"
    by (simp add: js_mul_def is_zero_def is_inf_def round_int_exact)
  moreover have "js_div (Fin 4573968371555000) (Fin 70368744177769) =
      Fin (of_int 4573968371548175 / 2 ^ (52 - 6))"
    using to_double_quotient [of 70368744177769 6 4573968371555000 4573968371548175]
    by (simp add: js_div_def is_zero_def is_inf_def)
  moreover have "Math_round (Fin (of_int 4573968371548175 / 2 ^ (52 - 6))) = Fin 65"
    by (simp only: Math_round_dyadic) simp
  ultimately show "densityRelativeTo MetroB (Fin 70368744177769) = Fin 65"
    by (simp only: densityRelativeTo_def MetroB_def Region.simps)
  show "densityRelativeTo MetroM (Fin 70368744177769) = Fin 100"
    using relative_exact [of MetroM 70368744177769 100 70368744177769] by (simp add: MetroM_def)
qed

lemma Metros_sorted:
  "maxDensity Metros = Fin 70368744177769"
  "regions (sortByRelativeDensity Metros) = [MetroM, MetroA, MetroB]"
proof -
  show m: "maxDensity Metros = Fin 70368744177769"
    by (simp add: maxDensity_def Math_max_def js_max2_def Metros_def MetroA_def MetroB_def
        MetroM_def)
  have d: "round_int 35 = Fin 35" "round_int (- 35) = Fin (- 35)"
    by (simp_all add: round_int_exact)
  show "regions (sortByRelativeDensity Metros) = [MetroM, MetroA, MetroB]"
    by (simp add: sortByRelativeDensity_def m Array_sort_def)
      (simp add: Metros_def comparator_def Metros_keys d)
qed

text \<open>
  C1. On a collection that is not empty \<open>sortByRelativeDensity\<close> takes the maximum \<open>m\<close> of
  the collection as it is before the sort and reorders the regions (the result has the
  same regions, as often) so that the keys \<open>round(density * 100 / m)\<close> descend: no region
  stands before a region with a greater key. The sort is stable: the regions whose keys
  tie with the key of a given region (neither key is greater) keep their order. When a
  key is \<open>NaN\<close> all keys tie, and the order stays as it was.
\<close>

theorem C1_sortByRelativeDensity:
  "regions c \<noteq> [] \<longrightarrow>
     mset (regions (sortByRelativeDensity c)) = mset (regions c) \<and>
     sorted_wrt
       (\<lambda>a b. \<not> js_lt (densityRelativeTo a (maxDensity c)) (densityRelativeTo b (maxDensity c)))
       (regions (sortByRelativeDensity c)) \<and>
     (\<forall>r\<in>set (regions c).
        filter (\<lambda>x. \<not> js_lt (densityRelativeTo x (maxDensity c)) (densityRelativeTo r (maxDensity c)) \<and>
                    \<not> js_lt (densityRelativeTo r (maxDensity c)) (densityRelativeTo x (maxDensity c)))
          (regions (sortByRelativeDensity c)) =
        filter (\<lambda>x. \<not> js_lt (densityRelativeTo x (maxDensity c)) (densityRelativeTo r (maxDensity c)) \<and>
                    \<not> js_lt (densityRelativeTo r (maxDensity c)) (densityRelativeTo x (maxDensity c)))
          (regions c)) \<and>
     ((\<exists>r\<in>set (regions c). densityRelativeTo r (maxDensity c) = NaN) \<longrightarrow>
        regions (sortByRelativeDensity c) = regions c)"
proof (intro impI conjI ballI)
  let ?m = "maxDensity c"
  let ?key = "\<lambda>r. densityRelativeTo r ?m"
  have out: "regions (sortByRelativeDensity c) = Array_sort (comparator ?m) (regions c)"
    by (simp add: sortByRelativeDensity_def)
  have cons: "consistent_on (comparator ?m) (set (regions c))"
    unfolding maxDensity_def by (rule comparator_consistent)
  show "mset (regions (sortByRelativeDensity c)) = mset (regions c)"
    by (simp add: out mset_Array_sort)
  show "sorted_wrt (\<lambda>a b. \<not> js_lt (?key a) (?key b)) (regions (sortByRelativeDensity c))"
    using sorted_Array_sort [OF cons] by (simp add: out comparator_after)
  show "filter (\<lambda>x. \<not> js_lt (?key x) (?key r) \<and> \<not> js_lt (?key r) (?key x))
          (regions (sortByRelativeDensity c)) =
        filter (\<lambda>x. \<not> js_lt (?key x) (?key r) \<and> \<not> js_lt (?key r) (?key x)) (regions c)"
    if r: "r \<in> set (regions c)" for r
    unfolding out
  proof (rule filter_Array_sort, intro ballI impI)
    fix x y
    assume "x \<in> set (regions c)" "y \<in> set (regions c)"
      and "\<not> js_lt (?key x) (?key r) \<and> \<not> js_lt (?key r) (?key x)"
      and "\<not> js_lt (?key y) (?key r) \<and> \<not> js_lt (?key r) (?key y)"
    with cons r show "\<not> js_lt (Fin 0) (comparator ?m x y)"
      unfolding consistent_on_def comparator_after by blast
  qed
  show "regions (sortByRelativeDensity c) = regions c"
    if "\<exists>r\<in>set (regions c). ?key r = NaN"
  proof -
    from that keys_dichotomy [OF refl, of "regions c"]
    have "\<forall>a\<in>set (regions c). \<forall>b\<in>set (regions c). \<not> js_lt (?key a) (?key b)"
      by (auto simp: maxDensity_def)
    then have "filter (\<lambda>x. True) (Array_sort (comparator ?m) (regions c)) =
        filter (\<lambda>x. True) (regions c)"
      by (intro filter_Array_sort) (simp add: comparator_after)
    then show ?thesis
      by (simp add: out)
  qed
qed

theorem C1_sortByRelativeDensity_witness:
  "regions Cities \<noteq> [] \<and>
   maxDensity Cities = Fin 40 \<and>
   map (\<lambda>r. densityRelativeTo r (maxDensity Cities)) (regions Cities) = [Fin 25, Fin 100, Fin 75, Fin 75] \<and>
   regions (sortByRelativeDensity Cities) = [CityF, CityG, CityH, CityE] \<and>
   mset (regions (sortByRelativeDensity Cities)) = mset (regions Cities) \<and>
   sorted_wrt
     (\<lambda>a b. \<not> js_lt (densityRelativeTo a (maxDensity Cities)) (densityRelativeTo b (maxDensity Cities)))
     (regions (sortByRelativeDensity Cities)) \<and>
   filter (\<lambda>x. \<not> js_lt (densityRelativeTo x (maxDensity Cities)) (densityRelativeTo CityG (maxDensity Cities)) \<and>
               \<not> js_lt (densityRelativeTo CityG (maxDensity Cities)) (densityRelativeTo x (maxDensity Cities)))
     (regions (sortByRelativeDensity Cities)) = [CityG, CityH] \<and>
   regions Metros \<noteq> [] \<and>
   regions (sortByRelativeDensity Metros) = [MetroM, MetroA, MetroB] \<and>
   sorted_wrt
     (\<lambda>a b. \<not> js_lt (densityRelativeTo a (maxDensity Metros)) (densityRelativeTo b (maxDensity Metros)))
     (regions (sortByRelativeDensity Metros))"
proof -
  have n: "regions Cities \<noteq> []" and r: "CityG \<in> set (regions Cities)"
    by (simp_all add: Cities_def)
  have m: "maxDensity Cities = Fin 40"
    by (simp add: maxDensity_def Math_max_def js_max2_def Cities_def CityE_def CityF_def CityG_def
        CityH_def)
  have key: "densityRelativeTo CityE (Fin 40) = Fin 25" "densityRelativeTo CityF (Fin 40) = Fin 100"
    "densityRelativeTo CityG (Fin 40) = Fin 75" "densityRelativeTo CityH (Fin 40) = Fin 75"
    using relative_exact [of CityE 10 25 40] relative_exact [of CityF 40 100 40]
      relative_exact [of CityG 30 75 40] relative_exact [of CityH 30 75 40]
    by (simp_all add: CityE_def CityF_def CityG_def CityH_def)
  have k: "map (\<lambda>r. densityRelativeTo r (maxDensity Cities)) (regions Cities) = [Fin 25, Fin 100, Fin 75, Fin 75]"
    by (simp add: m key) (simp add: Cities_def key)
  have d: "round_int (- 75) = Fin (- 75)" "round_int 75 = Fin 75" "round_int (- 50) = Fin (- 50)"
    "round_int 50 = Fin 50" "round_int 25 = Fin 25" "round_int (- 25) = Fin (- 25)"
    by (simp_all add: round_int_exact)
  have s: "regions (sortByRelativeDensity Cities) = [CityF, CityG, CityH, CityE]"
    by (simp add: sortByRelativeDensity_def m Array_sort_def)
      (simp add: Cities_def comparator_def key d)
  have f: "filter (\<lambda>x. \<not> js_lt (densityRelativeTo x (maxDensity Cities)) (densityRelativeTo CityG (maxDensity Cities)) \<and>
               \<not> js_lt (densityRelativeTo CityG (maxDensity Cities)) (densityRelativeTo x (maxDensity Cities)))
     (regions Cities) = [CityG, CityH]"
    by (simp add: m key) (simp add: Cities_def key)
  note T = C1_sortByRelativeDensity [of Cities, THEN mp, OF n]
  note T1 = T [THEN conjunct1]
  note T2 = T [THEN conjunct2, THEN conjunct1]
  note T3 = T [THEN conjunct2, THEN conjunct2, THEN conjunct1, THEN bspec, OF r, THEN trans, OF f]
  have n': "regions Metros \<noteq> []"
    by (simp add: Metros_def)
  note U2 = C1_sortByRelativeDensity [of Metros, THEN mp, OF n', THEN conjunct2, THEN conjunct1]
  from n m k s T1 T2 T3 n' Metros_sorted(2) U2 show ?thesis
    by (intro conjI)
qed

section \<open>Resolving the options\<close>

text \<open>
  The later version of \<open>CSV.from\<close> resolves the options as the caller gave them: every
  property the caller set keeps the caller's value, a property the caller left out has
  the default (\<open>headers\<close> true, \<open>eol\<close> the newline, \<open>separator\<close> the comma), the objects
  that were in the store are as they were (the resolved options are a new object), and
  \<open>parse\<close> splits the text on the resolved \<open>eol\<close> and each row on the resolved
  \<open>separator\<close>.
\<close>

lemma CSV_from_resolves:
  assumes "st ! 0 = DEFAULT_OPTIONS"
  shows "csv (fst (CSV_from text opts st)) = text \<and>
   take (length st) (snd (CSV_from text opts st)) = st \<and>
   (\<forall>k. (snd (CSV_from text opts st) ! options (fst (CSV_from text opts st))) k =
      (case (case opts of None \<Rightarrow> Map.empty | Some a \<Rightarrow> st ! a) k of
         None \<Rightarrow> DEFAULT_OPTIONS k
       | Some v \<Rightarrow> Some v)) \<and>
   DEFAULT_OPTIONS ''headers'' = Some (OBool True) \<and>
   DEFAULT_OPTIONS ''eol'' = Some (OStr [CHR 0x0A]) \<and>
   DEFAULT_OPTIONS ''separator'' = Some (OStr '','') \<and>
   CSV_parse (fst (CSV_from text opts st)) (snd (CSV_from text opts st)) =
     parse text (snd (CSV_from text opts st) ! options (fst (CSV_from text opts st)))"
  using assms
  by (auto simp: CSV_from_def CSV_parse_def Let_def map_add_def DEFAULT_OPTIONS_def
      split: option.splits)

lemma makeTable_splits:
  "makeTable text opts =
     map (\<lambda>line. String_split line (separator_of (opts ''separator'')))
       (String_split text (separator_of (opts ''eol'')))"
  by (simp add: makeTable_def)

text \<open>
  In \<open>Unit1/Task1\<close> the defaults are assigned over the caller's object, so \<open>headers\<close>,
  \<open>eol\<close> and the separator \<open>#makeTable\<close> reads are the defaults whatever the caller gave.
\<close>

lemma CSV_from_Task1_defaults_win:
  assumes "st ! 0 = DEFAULT_OPTIONS_Task1" and "a < length st"
  shows "(snd (CSV_from_Task1 text (Some a) st) ! options (fst (CSV_from_Task1 text (Some a) st))) ''headers'' = Some (OBool True)"
    and "(snd (CSV_from_Task1 text (Some a) st) ! options (fst (CSV_from_Task1 text (Some a) st))) ''eol'' = Some (OStr [CHR 0x0A])"
    and "(snd (CSV_from_Task1 text (Some a) st) ! options (fst (CSV_from_Task1 text (Some a) st))) ''seprator'' = Some (OStr '','')"
  using assms by (simp_all add: CSV_from_Task1_def DEFAULT_OPTIONS_Task1_def)

text \<open>
  C2. The later version resolves the options so that the caller's values win
  (\<open>CSV_from_resolves\<close>); \<open>Unit1/Task1\<close> does not. There \<open>CSV.from("a;b\r\n1;2", {headers: false, eol: "\r\n", separator: ";"})\<close>
  resolves \<open>headers\<close> to true and \<open>eol\<close> to the newline, splits the fields on the comma, and
  so parses the text to one record with the key \<open>"a;b\r"\<close> and the value \<open>"1;2"\<close>; it
  also writes the property \<open>seprator\<close> into the caller's object. The later version
  returns the table of the two rows \<open>a, b\<close> and \<open>1, 2\<close>.
\<close>

theorem C2_from_Task1_ignores_options:
  "(snd (CSV_from_Task1 SemicolonText (Some 1) [DEFAULT_OPTIONS_Task1, Semicolons]) !
      options (fst (CSV_from_Task1 SemicolonText (Some 1) [DEFAULT_OPTIONS_Task1, Semicolons])))
     ''headers'' = Some (OBool True) \<and>
   (snd (CSV_from_Task1 SemicolonText (Some 1) [DEFAULT_OPTIONS_Task1, Semicolons]) !
      options (fst (CSV_from_Task1 SemicolonText (Some 1) [DEFAULT_OPTIONS_Task1, Semicolons])))
     ''eol'' = Some (OStr [CHR 0x0A]) \<and>
   makeTable_Task1 SemicolonText
     (snd (CSV_from_Task1 SemicolonText (Some 1) [DEFAULT_OPTIONS_Task1, Semicolons]) !
        options (fst (CSV_from_Task1 SemicolonText (Some 1) [DEFAULT_OPTIONS_Task1, Semicolons]))) =
     [[''a;b'' @ [CHR 0x0D]], [''1;2'']] \<and>
   (case CSV_parse_Task1
           (fst (CSV_from_Task1 SemicolonText (Some 1) [DEFAULT_OPTIONS_Task1, Semicolons]))
           (snd (CSV_from_Task1 SemicolonText (Some 1) [DEFAULT_OPTIONS_Task1, Semicolons])) of
      Records rs \<Rightarrow> map (\<lambda>r. r (''a;b'' @ [CHR 0x0D])) rs
    | Table t \<Rightarrow> []) = [Some (Str ''1;2'')] \<and>
   Semicolons ''seprator'' = None \<and>
   (snd (CSV_from_Task1 SemicolonText (Some 1) [DEFAULT_OPTIONS_Task1, Semicolons]) ! 1)
     ''seprator'' = Some (OStr '','') \<and>
   (case CSV_parse (fst (CSV_from SemicolonText (Some 1) [DEFAULT_OPTIONS, Semicolons]))
           (snd (CSV_from SemicolonText (Some 1) [DEFAULT_OPTIONS, Semicolons])) of
      Records rs \<Rightarrow> []
    | Table t \<Rightarrow> t) = [[''a'', ''b''], [''1'', ''2'']]"
  by (intro conjI; code_simp)

end
